theory Spec2Isabelle
  imports Main "HOL-Library.Signed_Division"
begin

section \<open>The SoundCloud playlist plugin: the streaming JSON track extractor\<close>

subsection \<open>C strings and the glib helpers used by the plugin\<close>

text \<open>
  A C string is modelled by the list of its bytes before the terminating NUL; a nullable
  \<open>char *\<close> is a \<open>string option\<close>.  A buffer handed over by the JSON decoder is a list of
  raw bytes together with its length; it is not NUL-terminated and may contain NUL bytes.
\<close>

definition NUL :: char where
  "NUL = CHR 0x00"

text \<open>The byte read at the head of a C string: the terminator when the list is exhausted.\<close>

fun byte_at_head :: "string \<Rightarrow> nat" where
  "byte_at_head [] = 0"
| "byte_at_head (c # cs) = of_char c"

text \<open>
  \<open>strncmp(a, b, n)\<close>: compares at most \<open>n\<close> bytes and stops after a NUL byte that both
  strings share.  The result is zero exactly when no difference was seen.
\<close>

fun strncmp :: "string \<Rightarrow> string \<Rightarrow> nat \<Rightarrow> int" where
  "strncmp a b 0 = 0"
| "strncmp a b (Suc n) =
     (if byte_at_head a \<noteq> byte_at_head b then int (byte_at_head a) - int (byte_at_head b)
      else if byte_at_head a = 0 then 0
      else strncmp (tl a) (tl b) n)"

definition strcmp :: "string \<Rightarrow> string \<Rightarrow> int" where
  "strcmp a b = strncmp a b (Suc (max (length a) (length b)))"

text \<open>\<open>g_strndup(s, n)\<close>: the first \<open>n\<close> bytes of \<open>s\<close>, read back as a C string.\<close>

definition g_strndup :: "string \<Rightarrow> nat \<Rightarrow> string" where
  "g_strndup s n = takeWhile (\<lambda>c. c \<noteq> NUL) (take n s)"

text \<open>
  \<open>g_strconcat(s1, ..., NULL)\<close>: the argument list ends at the first null pointer; a null
  first argument gives a null result.
\<close>

fun concat_until_null :: "string option list \<Rightarrow> string" where
  "concat_until_null [] = []"
| "concat_until_null (None # rest) = []"
| "concat_until_null (Some s # rest) = s @ concat_until_null rest"

fun g_strconcat :: "string option list \<Rightarrow> string option" where
  "g_strconcat [] = None"
| "g_strconcat (None # rest) = None"
| "g_strconcat (Some s # rest) = Some (s @ concat_until_null rest)"

definition g_str_has_prefix :: "string \<Rightarrow> string \<Rightarrow> bool" where
  "g_str_has_prefix s p = (take (length p) s = p)"

subsection \<open>Songs and tags\<close>

datatype tag_type = TAG_NAME

record tag =
  time :: int
  items :: "(tag_type \<times> string) list"

record song =
  song_uri :: string
  song_tag :: tag

record soundcloud_config =
  apikey :: "string option"

subsection \<open>The parser state and the decoder callbacks\<close>

text \<open>The \<open>enum key\<close>; \<open>parse_data.key\<close> is an \<open>int\<close> holding one of these.\<close>

definition Duration :: int where "Duration = 0"
definition Title :: int where "Title = 1"
definition Stream_URL :: int where "Stream_URL = 2"
definition Other :: int where "Other = 3"

definition key_str :: "string option list" where
  "key_str = [Some ''duration'', Some ''title'', Some ''stream_url'', None]"

record parse_data =
  key :: int
  stream_url :: "string option"
  duration :: int
  title :: "string option"
  got_url :: int
  songs :: "song list"

text \<open>
  The events of the incremental decoder, one per entry of \<open>yajl_callbacks\<close>.  The plugin
  registers a callback for integers, strings, map starts, map keys and map ends only; the
  other entries of \<open>parse_callbacks\<close> are null.
\<close>

datatype event =
    Null
  | Boolean bool
  | Integer int
  | Double
  | Number string
  | String string
  | StartMap
  | MapKey string
  | EndMap
  | StartArray
  | EndArray

text \<open>What stops a callback: \<open>Song::NewRemote\<close> is handed a null pointer.\<close>

datatype fault = NullPointer

definition handle_integer :: "parse_data \<Rightarrow> int \<Rightarrow> parse_data" where
  "handle_integer data intval =
     (if key data = Duration then data\<lparr>duration := intval\<rparr> else data)"

definition handle_string :: "parse_data \<Rightarrow> string \<Rightarrow> parse_data" where
  "handle_string data stringval =
     (if key data = Title then
        data\<lparr>title := Some (g_strndup stringval (length stringval))\<rparr>
      else if key data = Stream_URL then
        data\<lparr>stream_url := Some (g_strndup stringval (length stringval)), got_url := 1\<rparr>
      else data)"

text \<open>The loop \<open>for (i = 0; i < Other; ++i)\<close> over \<open>key_str\<close>, from index \<open>i\<close> on.\<close>

fun mapkey_loop :: "int \<Rightarrow> string option list \<Rightarrow> string \<Rightarrow> int" where
  "mapkey_loop i [] stringval = Other"
| "mapkey_loop i (None # ks) stringval = Other"
| "mapkey_loop i (Some k # ks) stringval =
     (if i < Other then
        (if strncmp stringval k (length stringval) = 0 then i
         else mapkey_loop (i + 1) ks stringval)
      else Other)"

definition handle_mapkey :: "parse_data \<Rightarrow> string \<Rightarrow> parse_data" where
  "handle_mapkey data stringval = data\<lparr>key := mapkey_loop 0 key_str stringval\<rparr>"

definition handle_start_map :: "parse_data \<Rightarrow> parse_data" where
  "handle_start_map data =
     (if got_url data > 0 then data\<lparr>got_url := got_url data + 1\<rparr> else data)"

text \<open>
  \<open>t->time = data->duration / 1000\<close>: C division truncates towards zero, and the \<open>long\<close>
  quotient is stored in the \<open>int\<close> field of the tag.  \<open>Tag::AddItem\<close> is defined outside
  the plugin; \<open>items\<close> lists the calls of it, each with the type and the value handed over.
\<close>

definition make_tag :: "parse_data \<Rightarrow> tag" where
  "make_tag data =
     \<lparr>time = signed_take_bit 31 (duration data sdiv 1000),
      items = (case title data of None \<Rightarrow> [] | Some t \<Rightarrow> [(TAG_NAME, t)])\<rparr>"

definition handle_end_map :: "soundcloud_config \<Rightarrow> parse_data \<Rightarrow> fault + parse_data" where
  "handle_end_map cfg data =
     (if got_url data > 1 then Inr (data\<lparr>got_url := got_url data - 1\<rparr>)
      else if got_url data = 0 then Inr data
      else
        (case g_strconcat [stream_url data, Some ''?client_id='', apikey cfg] of
           None \<Rightarrow> Inl NullPointer
         | Some u \<Rightarrow>
             Inr (data\<lparr>got_url := 0,
                       songs := \<lparr>song_uri = u, song_tag = make_tag data\<rparr> # songs data\<rparr>)))"

text \<open>The dispatch of one decoder event through \<open>parse_callbacks\<close>.\<close>

fun callback :: "soundcloud_config \<Rightarrow> parse_data \<Rightarrow> event \<Rightarrow> fault + parse_data" where
  "callback cfg data (Integer intval) = Inr (handle_integer data intval)"
| "callback cfg data (String stringval) = Inr (handle_string data stringval)"
| "callback cfg data StartMap = Inr (handle_start_map data)"
| "callback cfg data (MapKey stringval) = Inr (handle_mapkey data stringval)"
| "callback cfg data EndMap = handle_end_map cfg data"
| "callback cfg data _ = Inr data"

fun run_callbacks :: "soundcloud_config \<Rightarrow> parse_data \<Rightarrow> event list \<Rightarrow> fault + parse_data" where
  "run_callbacks cfg data [] = Inr data"
| "run_callbacks cfg data (e # es) =
     (case callback cfg data e of
        Inl f \<Rightarrow> Inl f
      | Inr data' \<Rightarrow> run_callbacks cfg data' es)"

subsection \<open>Reading and decoding the document\<close>

datatype yajl_status =
    yajl_status_ok
  | yajl_status_client_canceled
  | yajl_status_insufficient_data
  | yajl_status_error

text \<open>
  The input stream as the read loop sees it: the non-empty reads in order, each with the
  events \<open>yajl_parse\<close> fires on that buffer and the status it returns, and then the read of
  zero bytes that ends the loop, which is either a read error or the end of the file (with
  the events and status of \<open>yajl_complete_parse\<close>).
\<close>

datatype stream_end =
    ReadError
  | EndOfFile "event list" yajl_status

record input_stream =
  reads :: "(event list \<times> yajl_status) list"
  ending :: stream_end

text \<open>The test after each decoder call; \<open>have_yajl1\<close> is the macro \<open>HAVE_YAJL1\<close>.\<close>

definition decode_failed :: "bool \<Rightarrow> yajl_status \<Rightarrow> bool" where
  "decode_failed have_yajl1 stat =
     (stat \<noteq> yajl_status_ok \<and> \<not> (have_yajl1 \<and> stat = yajl_status_insufficient_data))"

text \<open>The \<open>while (!done)\<close> loop of \<open>soundcloud_parse_json\<close>; the \<open>int\<close> is its return value.\<close>

fun parse_loop ::
  "soundcloud_config \<Rightarrow> bool \<Rightarrow> (event list \<times> yajl_status) list \<Rightarrow> stream_end \<Rightarrow> parse_data
     \<Rightarrow> fault + (int \<times> parse_data)" where
  "parse_loop cfg have_yajl1 [] ReadError data = Inr (- 1, data)"
| "parse_loop cfg have_yajl1 [] (EndOfFile evs stat) data =
     (case run_callbacks cfg data evs of
        Inl f \<Rightarrow> Inl f
      | Inr data' \<Rightarrow> Inr (0, data'))"
| "parse_loop cfg have_yajl1 ((evs, stat) # rest) fin data =
     (case run_callbacks cfg data evs of
        Inl f \<Rightarrow> Inl f
      | Inr data' \<Rightarrow>
          if decode_failed have_yajl1 stat then Inr (0, data')
          else parse_loop cfg have_yajl1 rest fin data')"

text \<open>\<open>input_stream::Open\<close> is the parameter \<open>stream_open\<close>: the stream behind a URL, if any.\<close>

definition soundcloud_parse_json ::
  "soundcloud_config \<Rightarrow> bool \<Rightarrow> (string \<Rightarrow> input_stream option) \<Rightarrow> string \<Rightarrow> parse_data
     \<Rightarrow> fault + (int \<times> parse_data)" where
  "soundcloud_parse_json cfg have_yajl1 stream_open url data =
     (case stream_open url of
        None \<Rightarrow> Inr (- 1, data)
      | Some is \<Rightarrow> parse_loop cfg have_yajl1 (reads is) (ending is) data)"

subsection \<open>Opening a \<open>soundcloud://\<close> URI\<close>

text \<open>The first loop of \<open>soundcloud_open_uri\<close>: cut the string at the first \<open>://\<close>.\<close>

fun split_scheme :: "string \<Rightarrow> string \<times> string" where
  "split_scheme [] = ([], [])"
| "split_scheme (c # cs) =
     (if c = CHR '':'' \<and> take 2 cs = ''//'' then ([], drop 2 cs)
      else (c # fst (split_scheme cs), snd (split_scheme cs)))"

text \<open>The second loop: cut at the first \<open>/\<close>.\<close>

fun split_arg :: "string \<Rightarrow> string \<times> string" where
  "split_arg [] = ([], [])"
| "split_arg (c # cs) =
     (if c = CHR ''/'' then ([], cs)
      else (c # fst (split_arg cs), snd (split_arg cs)))"

definition soundcloud_resolve :: "soundcloud_config \<Rightarrow> string \<Rightarrow> string option" where
  "soundcloud_resolve cfg u0 =
     (let u = (if g_str_has_prefix u0 ''http://'' then Some u0
               else if g_str_has_prefix u0 ''soundcloud.com'' then g_strconcat [Some ''http://'', Some u0]
               else g_strconcat [Some ''http://soundcloud.com/'', Some u0])
      in g_strconcat [Some ''http://api.soundcloud.com/resolve.json?url='', u,
                      Some ''&client_id='', apikey cfg])"

text \<open>The URL of the JSON document, or null for an unknown kind of URI.\<close>

definition soundcloud_url :: "soundcloud_config \<Rightarrow> string \<Rightarrow> string \<Rightarrow> string option" where
  "soundcloud_url cfg arg rest =
     (if strcmp arg ''track'' = 0 then
        g_strconcat [Some ''http://api.soundcloud.com/tracks/'', Some rest,
                     Some ''.json?client_id='', apikey cfg]
      else if strcmp arg ''playlist'' = 0 then
        g_strconcat [Some ''http://api.soundcloud.com/playlists/'', Some rest,
                     Some ''.json?client_id='', apikey cfg]
      else if strcmp arg ''url'' = 0 then soundcloud_resolve cfg rest
      else None)"

text \<open>
  The \<open>parse_data\<close> on the stack of \<open>soundcloud_open_uri\<close>: \<open>got_url\<close>, \<open>title\<close> and
  \<open>stream_url\<close> are assigned, the list of songs is constructed empty, and \<open>key\<close> and
  \<open>duration\<close> are left as they are found, here the parameters \<open>key0\<close> and \<open>duration0\<close>.
\<close>

definition initial_data :: "int \<Rightarrow> int \<Rightarrow> parse_data" where
  "initial_data key0 duration0 =
     \<lparr>key = key0, stream_url = None, duration = duration0, title = None, got_url = 0, songs = []\<rparr>"

text \<open>The result is the list of songs of the \<open>MemoryPlaylistProvider\<close>, or null.\<close>

definition soundcloud_open_uri ::
  "soundcloud_config \<Rightarrow> bool \<Rightarrow> (string \<Rightarrow> input_stream option) \<Rightarrow> int \<Rightarrow> int \<Rightarrow> string
     \<Rightarrow> fault + song list option" where
  "soundcloud_open_uri cfg have_yajl1 stream_open key0 duration0 s =
     (let scheme = fst (split_scheme s);
          arg = fst (split_arg (snd (split_scheme s)));
          rest = snd (split_arg (snd (split_scheme s)))
      in if strcmp scheme ''soundcloud'' \<noteq> 0 then Inr None
         else
           (case soundcloud_url cfg arg rest of
              None \<Rightarrow> Inr None
            | Some u \<Rightarrow>
                (case soundcloud_parse_json cfg have_yajl1 stream_open u (initial_data key0 duration0) of
                   Inl f \<Rightarrow> Inl f
                 | Inr (ret, data) \<Rightarrow>
                     if ret = - 1 then Inr None else Inr (Some (rev (songs data))))))"

subsection \<open>The records of a document, in the words of the specification\<close>

text \<open>
  A track record is complete when a map ends at depth 1: the record that this event closes,
  if it closes one.
\<close>

definition closes_record :: "soundcloud_config \<Rightarrow> parse_data \<Rightarrow> event \<Rightarrow> song option" where
  "closes_record cfg data e =
     (if e = EndMap \<and> got_url data = 1 then
        (case g_strconcat [stream_url data, Some ''?client_id='', apikey cfg] of
           None \<Rightarrow> None
         | Some u \<Rightarrow> Some \<lparr>song_uri = u, song_tag = make_tag data\<rparr>)
      else None)"

text \<open>The records in the order in which their objects close in the document.\<close>

fun records_in_document_order :: "soundcloud_config \<Rightarrow> parse_data \<Rightarrow> event list \<Rightarrow> song list" where
  "records_in_document_order cfg data [] = []"
| "records_in_document_order cfg data (e # es) =
     (case callback cfg data e of
        Inl f \<Rightarrow> []
      | Inr data' \<Rightarrow>
          (case closes_record cfg data e of None \<Rightarrow> [] | Some s \<Rightarrow> [s])
            @ records_in_document_order cfg data' es)"

text \<open>The events that reach the callbacks before the read loop stops.\<close>

fun events_consumed :: "bool \<Rightarrow> (event list \<times> yajl_status) list \<Rightarrow> stream_end \<Rightarrow> event list" where
  "events_consumed have_yajl1 [] ReadError = []"
| "events_consumed have_yajl1 [] (EndOfFile evs stat) = evs"
| "events_consumed have_yajl1 ((evs, stat) # rest) fin =
     (if decode_failed have_yajl1 stat then evs
      else evs @ events_consumed have_yajl1 rest fin)"

text \<open>
  Whether some integer of the event list is stored as a duration: it arrives while the
  current key, starting from \<open>k\<close>, is \<open>Duration\<close>.
\<close>

fun stores_duration :: "int \<Rightarrow> event list \<Rightarrow> bool" where
  "stores_duration k [] = False"
| "stores_duration k (Integer v # es) = (k = Duration \<or> stores_duration k es)"
| "stores_duration k (MapKey s # es) = stores_duration (mapkey_loop 0 key_str s) es"
| "stores_duration k (e # es) = stores_duration k es"

text \<open>
  Whether some string of the event list is stored as a stream URL: it arrives while the
  current key, starting from \<open>k\<close>, is \<open>Stream_URL\<close>.
\<close>

fun stores_stream_url :: "int \<Rightarrow> event list \<Rightarrow> bool" where
  "stores_stream_url k [] = False"
| "stores_stream_url k (String v # es) = (k = Stream_URL \<or> stores_stream_url k es)"
| "stores_stream_url k (MapKey s # es) = stores_stream_url (mapkey_loop 0 key_str s) es"
| "stores_stream_url k (e # es) = stores_stream_url k es"

text \<open>The same for a string stored as a title.\<close>

fun stores_title :: "int \<Rightarrow> event list \<Rightarrow> bool" where
  "stores_title k [] = False"
| "stores_title k (String v # es) = (k = Title \<or> stores_title k es)"
| "stores_title k (MapKey s # es) = stores_title (mapkey_loop 0 key_str s) es"
| "stores_title k (e # es) = stores_title k es"

text \<open>The invariant of the parser state that keeps \<open>handle_end_map\<close> away from a null URL.\<close>

definition data_ok :: "parse_data \<Rightarrow> bool" where
  "data_ok data = (0 \<le> got_url data \<and> (got_url data = 0 \<or> stream_url data \<noteq> None))"

section \<open>The playlist plugin registry\<close>

subsection \<open>Plugins, configuration and the environment\<close>

text \<open>
  A \<open>config_param\<close> block of the section \<open>playlist_plugin\<close>: its line, the value of its
  \<open>name\<close> parameter and the value of its \<open>enabled\<close> parameter, where they are given.
\<close>

record config_param =
  line :: int
  block_name :: "string option"
  block_enabled :: "bool option"

text \<open>\<open>param->GetBlockValue("enabled", default)\<close>.\<close>

definition GetBlockValue_enabled :: "config_param \<Rightarrow> bool \<Rightarrow> bool" where
  "GetBlockValue_enabled param default_value =
     (case block_enabled param of None \<Rightarrow> default_value | Some b \<Rightarrow> b)"

text \<open>The default-constructed block \<open>empty\<close> of \<open>playlist_list_global_init\<close>.\<close>

definition empty_param :: config_param where
  "empty_param = \<lparr>line = - 1, block_name = None, block_enabled = None\<rparr>"

text \<open>
  The \<open>playlist_plugin\<close> structure.  A function pointer or a string array that may be null
  is an option.  The functions of a plugin act on the world \<open>'w\<close> outside the registry
  (the network, the input stream, the plugin's own state) and return a provider \<open>'p\<close> or
  null.
\<close>

record ('w, 'p) playlist_plugin =
  name :: string
  init :: "(config_param \<Rightarrow> 'w \<Rightarrow> bool \<times> 'w) option"
  finish :: "('w \<Rightarrow> 'w) option"
  open_uri :: "(string \<Rightarrow> 'w \<Rightarrow> 'p option \<times> 'w) option"
  open_stream :: "('w \<Rightarrow> 'p option \<times> 'w) option"
  schemes :: "string list option"
  suffixes :: "string list option"
  mime_types :: "string list option"

text \<open>
  The functions that the registry calls and that are defined outside
  \<open>PlaylistRegistry.cxx\<close> are parameters: the string utilities of glib and \<open>util/\<close>, the
  operations of the input stream, and the wrappers \<open>playlist_plugin_init\<close> and
  \<open>playlist_plugin_finish\<close> of \<open>PlaylistPlugin.hxx\<close>.  \<open>Seek\<close> stands for
  \<open>is->Seek(0, SEEK_SET, IgnoreError())\<close>.
\<close>

record ('w, 'p) environment =
  string_array_contains :: "string list \<Rightarrow> string \<Rightarrow> bool"
  g_uri_parse_scheme :: "string \<Rightarrow> string option"
  uri_get_suffix :: "string \<Rightarrow> string option"
  LockWaitReady :: "'w \<Rightarrow> 'w"
  GetMimeType :: "'w \<Rightarrow> string option"
  Seek :: "'w \<Rightarrow> 'w"
  playlist_plugin_init :: "('w, 'p) playlist_plugin \<Rightarrow> config_param \<Rightarrow> 'w \<Rightarrow> bool \<times> 'w"
  playlist_plugin_finish :: "('w, 'p) playlist_plugin \<Rightarrow> 'w \<Rightarrow> 'w"

text \<open>
  What the registry does to the plugins is recorded beside the result: the calls of the
  lifecycle wrappers, and the open attempts (probes) with the index of the plugin and the
  pass that made them.
\<close>

datatype lifecycle_call = InitCall nat bool | FinishCall nat

datatype probe = SchemeProbe nat | SuffixProbe nat | MimeProbe nat

text \<open>\<open>MPD_ERROR\<close> ends the process.\<close>

datatype fatal = ConfigurationWithoutName int

subsection \<open>Initialisation and shutdown\<close>

fun playlist_plugin_config :: "config_param list \<Rightarrow> string \<Rightarrow> fatal + config_param option" where
  "playlist_plugin_config [] plugin_name = Inr None"
| "playlist_plugin_config (param # rest) plugin_name =
     (case block_name param of
        None \<Rightarrow> Inl (ConfigurationWithoutName (line param))
      | Some n \<Rightarrow>
          if strcmp n plugin_name = 0 then Inr (Some param)
          else playlist_plugin_config rest plugin_name)"

text \<open>
  The head of the loop body of \<open>playlist_list_global_init\<close>: the block to initialise the
  plugin with, or nothing when the loop continues without calling the plugin.
\<close>

definition init_param :: "config_param list \<Rightarrow> string \<Rightarrow> fatal + config_param option" where
  "init_param config plugin_name =
     (case playlist_plugin_config config plugin_name of
        Inl e \<Rightarrow> Inl e
      | Inr None \<Rightarrow> Inr (Some empty_param)
      | Inr (Some param) \<Rightarrow>
          if \<not> GetBlockValue_enabled param True then Inr None else Inr (Some param))"

text \<open>The loop of \<open>playlist_list_global_init\<close> from index \<open>i\<close> on, over the plugins left.\<close>

fun global_init_loop ::
  "('w, 'p) environment \<Rightarrow> config_param list \<Rightarrow> nat \<Rightarrow> ('w, 'p) playlist_plugin list
     \<Rightarrow> bool list \<Rightarrow> 'w \<Rightarrow> fatal + (bool list \<times> lifecycle_call list \<times> 'w)" where
  "global_init_loop env config i [] enabled w = Inr (enabled, [], w)"
| "global_init_loop env config i (plugin # rest) enabled w =
     (case init_param config (name plugin) of
        Inl e \<Rightarrow> Inl e
      | Inr None \<Rightarrow> global_init_loop env config (Suc i) rest enabled w
      | Inr (Some param) \<Rightarrow>
          (case playlist_plugin_init env plugin param w of
             (b, w') \<Rightarrow>
               (case global_init_loop env config (Suc i) rest (enabled[i := b]) w' of
                  Inl e \<Rightarrow> Inl e
                | Inr (enabled', calls, w'') \<Rightarrow> Inr (enabled', InitCall i b # calls, w''))))"

definition playlist_list_global_init ::
  "('w, 'p) environment \<Rightarrow> config_param list \<Rightarrow> ('w, 'p) playlist_plugin list
     \<Rightarrow> bool list \<Rightarrow> 'w \<Rightarrow> fatal + (bool list \<times> lifecycle_call list \<times> 'w)" where
  "playlist_list_global_init env config plugins enabled w =
     global_init_loop env config 0 plugins enabled w"

text \<open>
  Modelled from the spec: the macro \<open>playlist_plugins_for_each\<close> of
  \<open>PlaylistRegistry.hxx\<close>, which is not among the sources.  \<open>playlist_plugins_for_each_enabled\<close>
  guards its body with the flag of the slot; the walk itself goes over the registry in
  the declared order, as the specification has it ("for every slot with enabled=true ...
  in the same order as declared").
\<close>

fun global_finish_loop ::
  "('w, 'p) environment \<Rightarrow> bool list \<Rightarrow> nat \<Rightarrow> ('w, 'p) playlist_plugin list \<Rightarrow> 'w
     \<Rightarrow> lifecycle_call list \<times> 'w" where
  "global_finish_loop env enabled i [] w = ([], w)"
| "global_finish_loop env enabled i (plugin # rest) w =
     (if enabled ! i then
        (case global_finish_loop env enabled (Suc i) rest (playlist_plugin_finish env plugin w) of
           (calls, w') \<Rightarrow> (FinishCall i # calls, w'))
      else global_finish_loop env enabled (Suc i) rest w)"

definition playlist_list_global_finish ::
  "('w, 'p) environment \<Rightarrow> ('w, 'p) playlist_plugin list \<Rightarrow> bool list \<Rightarrow> 'w
     \<Rightarrow> lifecycle_call list \<times> 'w" where
  "playlist_list_global_finish env plugins enabled w = global_finish_loop env enabled 0 plugins w"

subsection \<open>Opening a URI\<close>

text \<open>
  The condition of the scheme loop: the function to call when plugin \<open>i\<close> is enabled, can
  open a URI and lists the scheme.
\<close>

definition scheme_candidate ::
  "('w, 'p) environment \<Rightarrow> bool list \<Rightarrow> string \<Rightarrow> nat \<Rightarrow> ('w, 'p) playlist_plugin
     \<Rightarrow> (string \<Rightarrow> 'w \<Rightarrow> 'p option \<times> 'w) option" where
  "scheme_candidate env enabled scheme i plugin =
     (if enabled ! i then
        (case open_uri plugin of
           None \<Rightarrow> None
         | Some f \<Rightarrow>
             (case schemes plugin of
                None \<Rightarrow> None
              | Some ss \<Rightarrow> if string_array_contains env ss scheme then Some f else None))
      else None)"

text \<open>
  The loop of \<open>playlist_list_open_uri_scheme\<close>.  The result is the playlist, the array
  \<open>tried\<close>, the indices of the plugins probed, and the world.  The loop writes
  \<open>tried[i]\<close> only in the iteration of index \<open>i\<close>, after it has read it; the
  \<open>assert(!tried[i])\<close> at the head of its body is left out of the function.
\<close>

fun open_uri_scheme_loop ::
  "('w, 'p) environment \<Rightarrow> bool list \<Rightarrow> string \<Rightarrow> string \<Rightarrow> nat \<Rightarrow> ('w, 'p) playlist_plugin list
     \<Rightarrow> bool list \<Rightarrow> 'w \<Rightarrow> 'p option \<times> bool list \<times> nat list \<times> 'w" where
  "open_uri_scheme_loop env enabled u scheme i [] tried w = (None, tried, [], w)"
| "open_uri_scheme_loop env enabled u scheme i (plugin # rest) tried w =
     (case scheme_candidate env enabled scheme i plugin of
        None \<Rightarrow> open_uri_scheme_loop env enabled u scheme (Suc i) rest tried w
      | Some f \<Rightarrow>
          (case f u w of
             (Some playlist, w') \<Rightarrow> (Some playlist, tried, [i], w')
           | (None, w') \<Rightarrow>
               (case open_uri_scheme_loop env enabled u scheme (Suc i) rest (tried[i := True]) w' of
                  (playlist, tried', probed, w'') \<Rightarrow> (playlist, tried', i # probed, w''))))"

definition playlist_list_open_uri_scheme ::
  "('w, 'p) environment \<Rightarrow> ('w, 'p) playlist_plugin list \<Rightarrow> bool list \<Rightarrow> string \<Rightarrow> bool list \<Rightarrow> 'w
     \<Rightarrow> 'p option \<times> bool list \<times> nat list \<times> 'w" where
  "playlist_list_open_uri_scheme env plugins enabled u tried w =
     (case g_uri_parse_scheme env u of
        None \<Rightarrow> (None, tried, [], w)
      | Some scheme \<Rightarrow> open_uri_scheme_loop env enabled u scheme 0 plugins tried w)"

definition suffix_candidate ::
  "('w, 'p) environment \<Rightarrow> bool list \<Rightarrow> bool list \<Rightarrow> string \<Rightarrow> nat \<Rightarrow> ('w, 'p) playlist_plugin
     \<Rightarrow> (string \<Rightarrow> 'w \<Rightarrow> 'p option \<times> 'w) option" where
  "suffix_candidate env enabled tried suffix i plugin =
     (if enabled ! i \<and> \<not> tried ! i then
        (case open_uri plugin of
           None \<Rightarrow> None
         | Some f \<Rightarrow>
             (case suffixes plugin of
                None \<Rightarrow> None
              | Some ss \<Rightarrow> if string_array_contains env ss suffix then Some f else None))
      else None)"

fun open_uri_suffix_loop ::
  "('w, 'p) environment \<Rightarrow> bool list \<Rightarrow> string \<Rightarrow> string \<Rightarrow> nat \<Rightarrow> ('w, 'p) playlist_plugin list
     \<Rightarrow> bool list \<Rightarrow> 'w \<Rightarrow> 'p option \<times> nat list \<times> 'w" where
  "open_uri_suffix_loop env enabled u suffix i [] tried w = (None, [], w)"
| "open_uri_suffix_loop env enabled u suffix i (plugin # rest) tried w =
     (case suffix_candidate env enabled tried suffix i plugin of
        None \<Rightarrow> open_uri_suffix_loop env enabled u suffix (Suc i) rest tried w
      | Some f \<Rightarrow>
          (case f u w of
             (Some playlist, w') \<Rightarrow> (Some playlist, [i], w')
           | (None, w') \<Rightarrow>
               (case open_uri_suffix_loop env enabled u suffix (Suc i) rest tried w' of
                  (playlist, probed, w'') \<Rightarrow> (playlist, i # probed, w''))))"

definition playlist_list_open_uri_suffix ::
  "('w, 'p) environment \<Rightarrow> ('w, 'p) playlist_plugin list \<Rightarrow> bool list \<Rightarrow> string \<Rightarrow> bool list \<Rightarrow> 'w
     \<Rightarrow> 'p option \<times> nat list \<times> 'w" where
  "playlist_list_open_uri_suffix env plugins enabled u tried w =
     (case uri_get_suffix env u of
        None \<Rightarrow> (None, [], w)
      | Some suffix \<Rightarrow> open_uri_suffix_loop env enabled u suffix 0 plugins tried w)"

text \<open>
  \<open>playlist_list_open_uri\<close>: the array \<open>tried\<close> has one entry per plugin and starts all
  false.  The probes of the two passes are tagged with the pass.
\<close>

definition playlist_list_open_uri ::
  "('w, 'p) environment \<Rightarrow> ('w, 'p) playlist_plugin list \<Rightarrow> bool list \<Rightarrow> string \<Rightarrow> 'w
     \<Rightarrow> 'p option \<times> probe list \<times> 'w" where
  "playlist_list_open_uri env plugins enabled u w =
     (case playlist_list_open_uri_scheme env plugins enabled u (replicate (length plugins) False) w of
        (Some playlist, tried, probed, w') \<Rightarrow> (Some playlist, map SchemeProbe probed, w')
      | (None, tried, probed, w') \<Rightarrow>
          (case playlist_list_open_uri_suffix env plugins enabled u tried w' of
             (playlist, probed', w'') \<Rightarrow>
               (playlist, map SchemeProbe probed @ map SuffixProbe probed', w'')))"

subsection \<open>Opening a stream\<close>

text \<open>\<open>strchr(s, c)\<close> for a character other than NUL: the offset of its first occurrence.\<close>

fun strchr :: "string \<Rightarrow> char \<Rightarrow> nat option" where
  "strchr [] c = None"
| "strchr (x # xs) c = (if x = c then Some 0 else map_option Suc (strchr xs c))"

text \<open>
  The condition shared by the two stream loops, for the string array \<open>types\<close> of the
  plugin (\<open>mime_types\<close> or \<open>suffixes\<close>).
\<close>

definition stream_candidate ::
  "('w, 'p) environment \<Rightarrow> bool list \<Rightarrow> string list option \<Rightarrow> string \<Rightarrow> nat
     \<Rightarrow> ('w, 'p) playlist_plugin \<Rightarrow> ('w \<Rightarrow> 'p option \<times> 'w) option" where
  "stream_candidate env enabled types needle i plugin =
     (if enabled ! i then
        (case open_stream plugin of
           None \<Rightarrow> None
         | Some f \<Rightarrow>
             (case types of
                None \<Rightarrow> None
              | Some ss \<Rightarrow> if string_array_contains env ss needle then Some f else None))
      else None)"

fun open_stream_mime2_loop ::
  "('w, 'p) environment \<Rightarrow> bool list \<Rightarrow> string \<Rightarrow> nat \<Rightarrow> ('w, 'p) playlist_plugin list \<Rightarrow> 'w
     \<Rightarrow> 'p option \<times> nat list \<times> 'w" where
  "open_stream_mime2_loop env enabled mime i [] w = (None, [], w)"
| "open_stream_mime2_loop env enabled mime i (plugin # rest) w =
     (case stream_candidate env enabled (mime_types plugin) mime i plugin of
        None \<Rightarrow> open_stream_mime2_loop env enabled mime (Suc i) rest w
      | Some f \<Rightarrow>
          (case f (Seek env w) of
             (Some playlist, w') \<Rightarrow> (Some playlist, [i], w')
           | (None, w') \<Rightarrow>
               (case open_stream_mime2_loop env enabled mime (Suc i) rest w' of
                  (playlist, probed, w'') \<Rightarrow> (playlist, i # probed, w''))))"

definition playlist_list_open_stream_mime2 ::
  "('w, 'p) environment \<Rightarrow> ('w, 'p) playlist_plugin list \<Rightarrow> bool list \<Rightarrow> string \<Rightarrow> 'w
     \<Rightarrow> 'p option \<times> nat list \<times> 'w" where
  "playlist_list_open_stream_mime2 env plugins enabled mime w =
     open_stream_mime2_loop env enabled mime 0 plugins w"

definition playlist_list_open_stream_mime ::
  "('w, 'p) environment \<Rightarrow> ('w, 'p) playlist_plugin list \<Rightarrow> bool list \<Rightarrow> string \<Rightarrow> 'w
     \<Rightarrow> 'p option \<times> nat list \<times> 'w" where
  "playlist_list_open_stream_mime env plugins enabled full_mime w =
     (case strchr full_mime CHR '';'' of
        None \<Rightarrow> playlist_list_open_stream_mime2 env plugins enabled full_mime w
      | Some semicolon \<Rightarrow>
          if semicolon = 0 then (None, [], w)
          else playlist_list_open_stream_mime2 env plugins enabled (g_strndup full_mime semicolon) w)"

fun open_stream_suffix_loop ::
  "('w, 'p) environment \<Rightarrow> bool list \<Rightarrow> string \<Rightarrow> nat \<Rightarrow> ('w, 'p) playlist_plugin list \<Rightarrow> 'w
     \<Rightarrow> 'p option \<times> nat list \<times> 'w" where
  "open_stream_suffix_loop env enabled suffix i [] w = (None, [], w)"
| "open_stream_suffix_loop env enabled suffix i (plugin # rest) w =
     (case stream_candidate env enabled (suffixes plugin) suffix i plugin of
        None \<Rightarrow> open_stream_suffix_loop env enabled suffix (Suc i) rest w
      | Some f \<Rightarrow>
          (case f (Seek env w) of
             (Some playlist, w') \<Rightarrow> (Some playlist, [i], w')
           | (None, w') \<Rightarrow>
               (case open_stream_suffix_loop env enabled suffix (Suc i) rest w' of
                  (playlist, probed, w'') \<Rightarrow> (playlist, i # probed, w''))))"

definition playlist_list_open_stream_suffix ::
  "('w, 'p) environment \<Rightarrow> ('w, 'p) playlist_plugin list \<Rightarrow> bool list \<Rightarrow> string \<Rightarrow> 'w
     \<Rightarrow> 'p option \<times> nat list \<times> 'w" where
  "playlist_list_open_stream_suffix env plugins enabled suffix w =
     open_stream_suffix_loop env enabled suffix 0 plugins w"

text \<open>The two steps of \<open>playlist_list_open_stream\<close>, each guarded as in the source.\<close>

definition open_stream_mime_step ::
  "('w, 'p) environment \<Rightarrow> ('w, 'p) playlist_plugin list \<Rightarrow> bool list \<Rightarrow> 'w
     \<Rightarrow> 'p option \<times> nat list \<times> 'w" where
  "open_stream_mime_step env plugins enabled w =
     (case GetMimeType env w of
        None \<Rightarrow> (None, [], w)
      | Some mime \<Rightarrow> playlist_list_open_stream_mime env plugins enabled mime w)"

definition open_stream_suffix_step ::
  "('w, 'p) environment \<Rightarrow> ('w, 'p) playlist_plugin list \<Rightarrow> bool list \<Rightarrow> string option \<Rightarrow> 'w
     \<Rightarrow> 'p option \<times> nat list \<times> 'w" where
  "open_stream_suffix_step env plugins enabled u w =
     (case (case u of None \<Rightarrow> None | Some u' \<Rightarrow> uri_get_suffix env u') of
        None \<Rightarrow> (None, [], w)
      | Some suffix \<Rightarrow> playlist_list_open_stream_suffix env plugins enabled suffix w)"

definition playlist_list_open_stream ::
  "('w, 'p) environment \<Rightarrow> ('w, 'p) playlist_plugin list \<Rightarrow> bool list \<Rightarrow> string option \<Rightarrow> 'w
     \<Rightarrow> 'p option \<times> probe list \<times> 'w" where
  "playlist_list_open_stream env plugins enabled u w =
     (case open_stream_mime_step env plugins enabled (LockWaitReady env w) of
        (Some playlist, probed, w') \<Rightarrow> (Some playlist, map MimeProbe probed, w')
      | (None, probed, w') \<Rightarrow>
          (case open_stream_suffix_step env plugins enabled u w' of
             (playlist, probed', w'') \<Rightarrow>
               (playlist, map MimeProbe probed @ map SuffixProbe probed', w'')))"

subsection \<open>A small registry for the examples\<close>

text \<open>
  Four plugins over a world that is a number, with providers named by strings: an open
  attempt adds one to the world, and each \<open>finish\<close> changes it in its own way.  The string utilities are simple stand-ins; the stream's MIME type is the
  parameter of the environment.
\<close>

definition example_environment :: "string option \<Rightarrow> (nat, string) environment" where
  "example_environment mime =
     \<lparr>string_array_contains = (\<lambda>haystack needle. needle \<in> set haystack),
      g_uri_parse_scheme =
        (\<lambda>u. if CHR '':'' \<in> set u then Some (takeWhile (\<lambda>c. c \<noteq> CHR '':'') u) else None),
      uri_get_suffix =
        (\<lambda>u. if CHR ''.'' \<in> set u then Some (rev (takeWhile (\<lambda>c. c \<noteq> CHR ''.'') (rev u))) else None),
      LockWaitReady = (\<lambda>w. w),
      GetMimeType = (\<lambda>w. mime),
      Seek = (\<lambda>w. w),
      playlist_plugin_init =
        (\<lambda>plugin param w. case init plugin of None \<Rightarrow> (True, w) | Some f \<Rightarrow> f param w),
      playlist_plugin_finish =
        (\<lambda>plugin w. case finish plugin of None \<Rightarrow> w | Some f \<Rightarrow> f w)\<rparr>"

definition example_plugins :: "(nat, string) playlist_plugin list" where
  "example_plugins =
     [\<lparr>name = ''extm3u'', init = None, finish = Some (\<lambda>w. 2 * w + 1),
       open_uri = Some (\<lambda>u w. (None, Suc w)), open_stream = Some (\<lambda>w. (None, Suc w)),
       schemes = None, suffixes = Some [''m3u''], mime_types = Some [''audio/x-mpegurl'']\<rparr>,
      \<lparr>name = ''m3u'', init = None, finish = Some (\<lambda>w. w + 500),
       open_uri = Some (\<lambda>u w. (None, Suc w)), open_stream = Some (\<lambda>w. (Some ''m3u'', Suc w)),
       schemes = Some [''http''], suffixes = Some [''m3u''], mime_types = Some [''audio/x-mpegurl'']\<rparr>,
      \<lparr>name = ''xspf'', init = Some (\<lambda>param w. (True, w)), finish = Some (\<lambda>w. 3 * w),
       open_uri = Some (\<lambda>u w. (Some ''xspf'', Suc w)), open_stream = Some (\<lambda>w. (Some ''xspf'', Suc w)),
       schemes = None, suffixes = Some [''xspf''], mime_types = Some [''text/xml'']\<rparr>,
      \<lparr>name = ''soundcloud'', init = Some (\<lambda>param w. (False, w)), finish = Some (\<lambda>w. w + 1000),
       open_uri = Some (\<lambda>u w. (None, Suc w)), open_stream = None,
       schemes = Some [''soundcloud''], suffixes = None, mime_types = None\<rparr>]"

definition example_config :: "config_param list" where
  "example_config =
     [\<lparr>line = 10, block_name = Some ''xspf'', block_enabled = Some True\<rparr>,
      \<lparr>line = 14, block_name = Some ''m3u'', block_enabled = Some False\<rparr>]"

section \<open>Properties of the track extractor\<close>

lemmas key_defs = Duration_def Title_def Stream_URL_def Other_def

lemmas handler_defs =
  handle_integer_def handle_string_def handle_mapkey_def handle_start_map_def handle_end_map_def

lemmas eval_defs =
  handler_defs make_tag_def g_strndup_def NUL_def key_str_def key_defs initial_data_def

lemma run_callbacks_append:
  "run_callbacks cfg data (xs @ ys) =
     (case run_callbacks cfg data xs of Inl f \<Rightarrow> Inl f | Inr data' \<Rightarrow> run_callbacks cfg data' ys)"
  by (induction xs arbitrary: data) (auto split: sum.splits)

lemma parse_loop_consumed:
  "parse_loop cfg y rs fin data = Inr (ret, data') \<Longrightarrow>
   run_callbacks cfg data (events_consumed y rs fin) = Inr data'"
proof (induction cfg y rs fin data rule: parse_loop.induct)
  case (1 cfg y data)
  then show ?case by simp
next
  case (2 cfg y evs stat data)
  then show ?case by (simp split: sum.splits)
next
  case (3 cfg y evs stat rest fin data)
  then show ?case
    by (auto simp: run_callbacks_append split: sum.splits if_splits)
qed

lemma callback_got_url_nonneg:
  "callback cfg data e = Inr data' \<Longrightarrow> 0 \<le> got_url data \<Longrightarrow> 0 \<le> got_url data'"
  by (cases e) (auto simp: handler_defs split: if_splits option.splits)

lemma callback_songs:
  "callback cfg data e = Inr data' \<Longrightarrow> 0 \<le> got_url data \<Longrightarrow>
   songs data' = (case closes_record cfg data e of None \<Rightarrow> [] | Some s \<Rightarrow> [s]) @ songs data"
  by (cases e) (auto simp: closes_record_def handler_defs split: if_splits option.splits)

lemma run_callbacks_songs:
  "run_callbacks cfg data evs = Inr data' \<Longrightarrow> 0 \<le> got_url data \<Longrightarrow>
   songs data' = rev (records_in_document_order cfg data evs) @ songs data"
proof (induction evs arbitrary: data)
  case Nil
  then show ?case by simp
next
  case (Cons e es)
  then obtain d1 where d1: "callback cfg data e = Inr d1" and r: "run_callbacks cfg d1 es = Inr data'"
    by (auto split: sum.splits)
  from Cons.IH [OF r callback_got_url_nonneg [OF d1 Cons.prems(2)]]
    callback_songs [OF d1 Cons.prems(2)] d1
  show ?case
    by (simp split: option.splits)
qed

lemma callback_data_ok:
  "data_ok data \<Longrightarrow> \<exists>data'. callback cfg data e = Inr data' \<and> data_ok data'"
  by (cases e; cases "stream_url data") (auto simp: data_ok_def handler_defs)

lemma run_callbacks_data_ok:
  "data_ok data \<Longrightarrow> \<exists>data'. run_callbacks cfg data evs = Inr data' \<and> data_ok data'"
proof (induction evs arbitrary: data)
  case Nil
  then show ?case by simp
next
  case (Cons e es)
  from callback_data_ok [OF Cons.prems] obtain d1
    where "callback cfg data e = Inr d1" "data_ok d1" by blast
  with Cons.IH [of d1] show ?case by simp
qed

lemma callback_duration:
  "callback cfg data e = Inr data' \<Longrightarrow> \<not> stores_duration (key data) (e # es) \<Longrightarrow>
   duration data' = duration data \<and> \<not> stores_duration (key data') es"
  by (cases e) (auto simp: handler_defs split: if_splits option.splits)

lemma closes_record_time:
  "closes_record cfg data e = Some s \<Longrightarrow>
   time (song_tag s) = signed_take_bit 31 (duration data sdiv 1000)"
  by (auto simp: closes_record_def make_tag_def split: if_splits option.splits)

lemma records_time:
  "\<not> stores_duration (key data) evs \<Longrightarrow> s \<in> set (records_in_document_order cfg data evs) \<Longrightarrow>
   time (song_tag s) = signed_take_bit 31 (duration data sdiv 1000)"
proof (induction evs arbitrary: data)
  case Nil
  then show ?case by simp
next
  case (Cons e es)
  show ?case
  proof (cases "callback cfg data e")
    case (Inl f)
    with Cons.prems show ?thesis by simp
  next
    case (Inr d1)
    from callback_duration [OF Inr Cons.prems(1)]
    have d: "duration d1 = duration data" and n: "\<not> stores_duration (key d1) es" by simp_all
    from Cons.prems(2) Inr
    consider "closes_record cfg data e = Some s" | "s \<in> set (records_in_document_order cfg d1 es)"
      by (auto split: option.splits)
    then show ?thesis
    proof cases
      case 1
      then show ?thesis by (rule closes_record_time)
    next
      case 2
      from Cons.IH [OF n 2] d show ?thesis by simp
    qed
  qed
qed

lemma run_callbacks_duration:
  "run_callbacks cfg data evs = Inr data' \<Longrightarrow> \<not> stores_duration (key data) evs \<Longrightarrow>
   duration data' = duration data"
proof (induction evs arbitrary: data)
  case Nil
  then show ?case by simp
next
  case (Cons e es)
  then obtain d1 where d1: "callback cfg data e = Inr d1" and r: "run_callbacks cfg d1 es = Inr data'"
    by (auto split: sum.splits)
  from callback_duration [OF d1 Cons.prems(2)] Cons.IH [OF r] show ?case by simp
qed

lemma callback_no_stream_url:
  "callback cfg data e = Inr data' \<Longrightarrow> got_url data = 0 \<Longrightarrow>
   \<not> stores_stream_url (key data) (e # es) \<Longrightarrow>
   got_url data' = 0 \<and> songs data' = songs data \<and> \<not> stores_stream_url (key data') es"
  by (cases e) (auto simp: handler_defs key_defs split: if_splits)

lemma run_callbacks_no_stream_url:
  "run_callbacks cfg data evs = Inr data' \<Longrightarrow> got_url data = 0 \<Longrightarrow>
   \<not> stores_stream_url (key data) evs \<Longrightarrow> got_url data' = 0 \<and> songs data' = songs data"
proof (induction evs arbitrary: data)
  case Nil
  then show ?case by simp
next
  case (Cons e es)
  then obtain d1 where d1: "callback cfg data e = Inr d1" and r: "run_callbacks cfg d1 es = Inr data'"
    by (auto split: sum.splits)
  from callback_no_stream_url [OF d1 Cons.prems(2,3)] Cons.IH [OF r] show ?case by simp
qed

lemma callback_title:
  "callback cfg data e = Inr data' \<Longrightarrow> \<not> stores_title (key data) (e # es) \<Longrightarrow>
   title data' = title data \<and> \<not> stores_title (key data') es"
  by (cases e) (auto simp: handler_defs split: if_splits option.splits)

lemma closes_record_items:
  "closes_record cfg data e = Some s \<Longrightarrow>
   items (song_tag s) = (case title data of None \<Rightarrow> [] | Some t \<Rightarrow> [(TAG_NAME, t)])"
  by (auto simp: closes_record_def make_tag_def split: if_splits option.splits)

lemma records_items:
  "\<not> stores_title (key data) evs \<Longrightarrow> s \<in> set (records_in_document_order cfg data evs) \<Longrightarrow>
   items (song_tag s) = (case title data of None \<Rightarrow> [] | Some t \<Rightarrow> [(TAG_NAME, t)])"
proof (induction evs arbitrary: data)
  case Nil
  then show ?case by simp
next
  case (Cons e es)
  show ?case
  proof (cases "callback cfg data e")
    case (Inl f)
    with Cons.prems show ?thesis by simp
  next
    case (Inr d1)
    from callback_title [OF Inr Cons.prems(1)]
    have t: "title d1 = title data" and n: "\<not> stores_title (key d1) es" by simp_all
    from Cons.prems(2) Inr
    consider "closes_record cfg data e = Some s" | "s \<in> set (records_in_document_order cfg d1 es)"
      by (auto split: option.splits)
    then show ?thesis
    proof cases
      case 1
      then show ?thesis by (rule closes_record_items)
    next
      case 2
      from Cons.IH [OF n 2] t show ?thesis by simp
    qed
  qed
qed

lemma run_callbacks_title:
  "run_callbacks cfg data evs = Inr data' \<Longrightarrow> \<not> stores_title (key data) evs \<Longrightarrow>
   title data' = title data"
proof (induction evs arbitrary: data)
  case Nil
  then show ?case by simp
next
  case (Cons e es)
  then obtain d1 where d1: "callback cfg data e = Inr d1" and r: "run_callbacks cfg d1 es = Inr data'"
    by (auto split: sum.splits)
  from callback_title [OF d1 Cons.prems(2)] Cons.IH [OF r] show ?case by simp
qed

text \<open>
  Claim C1.  The claim: whenever the decoder reports a decode error during the extraction
  of \<open>soundcloud_open_uri\<close>, the result is null and the records accumulated before the
  error are dropped.  The code at a stream whose first buffer holds one complete track and
  whose second buffer is rejected by the decoder: \<open>soundcloud_parse_json\<close> leaves the loop
  and returns 0, and the track decoded before the error is returned to the caller.
\<close>

theorem soundcloud_open_uri_decode_error_returns_partial:
  "soundcloud_open_uri \<lparr>apikey = Some ''k''\<rparr> False
     (\<lambda>u. if u = ''http://api.soundcloud.com/tracks/1.json?client_id=k''
          then Some \<lparr>reads = [([StartMap, MapKey ''stream_url'', String ''u1'', EndMap], yajl_status_ok),
                               ([], yajl_status_error)],
                      ending = EndOfFile [] yajl_status_ok\<rparr>
          else None)
     3 0 ''soundcloud://track/1''
   = Inr (Some [\<lparr>song_uri = ''u1?client_id=k'', song_tag = \<lparr>time = 0, items = []\<rparr>\<rparr>])"
  by (simp add: soundcloud_open_uri_def soundcloud_url_def strcmp_def soundcloud_parse_json_def
      decode_failed_def eval_defs)

text \<open>
  Claim C3, as stated: after a record is emitted the scratch buffers \<open>stream_url\<close> and
  \<open>title\<close> are cleared, so that a later record without a title cannot inherit one.  It
  fails on a document of two track objects of which only the first has a title: the
  buffers still hold the first record's values at the end, and both songs carry the title
  of the first.
\<close>

theorem scratch_buffers_survive_record_counterexample:
  "run_callbacks \<lparr>apikey = Some ''k''\<rparr> (initial_data 3 0)
     [StartArray,
      StartMap, MapKey ''title'', String ''A'', MapKey ''stream_url'', String ''u1'', EndMap,
      StartMap, MapKey ''stream_url'', String ''u2'', EndMap,
      EndArray]
   = Inr \<lparr>key = 2, stream_url = Some ''u2'', duration = 0, title = Some ''A'', got_url = 0,
          songs = [\<lparr>song_uri = ''u2?client_id=k'', song_tag = \<lparr>time = 0, items = [(TAG_NAME, ''A'')]\<rparr>\<rparr>,
                   \<lparr>song_uri = ''u1?client_id=k'', song_tag = \<lparr>time = 0, items = [(TAG_NAME, ''A'')]\<rparr>\<rparr>]\<rparr>"
  by (simp add: eval_defs)

text \<open>
  Claim C3, amended: when \<open>handle_end_map\<close> closes a record (\<open>got_url\<close> is 1) it resets
  \<open>got_url\<close> to 0 and prepends the new song; the scratch fields \<open>stream_url\<close>, \<open>title\<close>
  and \<open>duration\<close> and the current key keep their values.  The URL is not taken over by
  a later record: from a state with \<open>got_url\<close> 0, events that store no string as a stream
  URL emit no record.  The title is: over a stretch of events that stores no string as a
  title, the stored title does not change, and every record emitted in the stretch carries
  the title stored before it (the previous record's, when nothing else stored one since).
\<close>

theorem handle_end_map_keeps_scratch:
  "(got_url data = 1 \<longrightarrow> handle_end_map cfg data = Inr data' \<longrightarrow>
      got_url data' = 0 \<and> stream_url data' = stream_url data \<and> title data' = title data
      \<and> duration data' = duration data \<and> key data' = key data
      \<and> tl (songs data') = songs data \<and> song_tag (hd (songs data')) = make_tag data)
   \<and> (got_url d = 0 \<longrightarrow> \<not> stores_stream_url (key d) evs \<longrightarrow> run_callbacks cfg d evs = Inr d' \<longrightarrow>
      got_url d' = 0 \<and> songs d' = songs d)
   \<and> (0 \<le> got_url prev \<longrightarrow> \<not> stores_title (key prev) stretch \<longrightarrow>
      run_callbacks cfg prev stretch = Inr later \<longrightarrow>
      title later = title prev
      \<and> (\<exists>new. songs later = new @ songs prev
            \<and> (\<forall>s \<in> set new. items (song_tag s)
                   = (case title prev of None \<Rightarrow> [] | Some t \<Rightarrow> [(TAG_NAME, t)]))))"
proof -
  have frame: "got_url data' = 0 \<and> stream_url data' = stream_url data \<and> title data' = title data
      \<and> duration data' = duration data \<and> key data' = key data
      \<and> tl (songs data') = songs data \<and> song_tag (hd (songs data')) = make_tag data"
    if "got_url data = 1" "handle_end_map cfg data = Inr data'"
    using that by (auto simp: handle_end_map_def split: option.splits)
  have no_url: "got_url d' = 0 \<and> songs d' = songs d"
    if a: "got_url d = 0" "\<not> stores_stream_url (key d) evs" "run_callbacks cfg d evs = Inr d'"
    using run_callbacks_no_stream_url [OF a(3) a(1) a(2)] .
  have inherit: "title later = title prev
      \<and> (\<exists>new. songs later = new @ songs prev
            \<and> (\<forall>s \<in> set new. items (song_tag s)
                   = (case title prev of None \<Rightarrow> [] | Some t \<Rightarrow> [(TAG_NAME, t)])))"
    if a: "0 \<le> got_url prev" "\<not> stores_title (key prev) stretch"
      "run_callbacks cfg prev stretch = Inr later"
  proof -
    let ?new = "rev (records_in_document_order cfg prev stretch)"
    have "songs later = ?new @ songs prev"
      using a(3,1) by (rule run_callbacks_songs)
    moreover have "\<forall>s \<in> set ?new. items (song_tag s)
                   = (case title prev of None \<Rightarrow> [] | Some t \<Rightarrow> [(TAG_NAME, t)])"
      using records_items [OF a(2)] by simp
    moreover have "title later = title prev"
      using a(3,2) by (rule run_callbacks_title)
    ultimately show ?thesis by blast
  qed
  from frame no_url inherit show ?thesis by blast
qed

theorem handle_end_map_keeps_scratch_witness:
  "handle_end_map \<lparr>apikey = Some ''k''\<rparr>
        \<lparr>key = 2, stream_url = Some ''u1'', duration = 7, title = Some ''A'', got_url = 1, songs = []\<rparr>
      = Inr \<lparr>key = 2, stream_url = Some ''u1'', duration = 7, title = Some ''A'', got_url = 0,
             songs = [\<lparr>song_uri = ''u1?client_id=k'', song_tag = \<lparr>time = 0, items = [(TAG_NAME, ''A'')]\<rparr>\<rparr>]\<rparr>
   \<and> run_callbacks \<lparr>apikey = Some ''k''\<rparr>
        \<lparr>key = 2, stream_url = Some ''u1'', duration = 7, title = Some ''A'', got_url = 0,
             songs = [\<lparr>song_uri = ''u1?client_id=k'', song_tag = \<lparr>time = 0, items = [(TAG_NAME, ''A'')]\<rparr>\<rparr>]\<rparr>
        [StartMap, MapKey ''title'', String ''B'', EndMap]
      = Inr \<lparr>key = 1, stream_url = Some ''u1'', duration = 7, title = Some ''B'', got_url = 0,
             songs = [\<lparr>song_uri = ''u1?client_id=k'', song_tag = \<lparr>time = 0, items = [(TAG_NAME, ''A'')]\<rparr>\<rparr>]\<rparr>
   \<and> \<not> stores_stream_url 2 [StartMap, MapKey ''title'', String ''B'', EndMap]
   \<and> run_callbacks \<lparr>apikey = Some ''k''\<rparr>
        \<lparr>key = 2, stream_url = Some ''u1'', duration = 7, title = Some ''A'', got_url = 0,
             songs = [\<lparr>song_uri = ''u1?client_id=k'', song_tag = \<lparr>time = 0, items = [(TAG_NAME, ''A'')]\<rparr>\<rparr>]\<rparr>
        [StartMap, MapKey ''stream_url'', String ''u2'', EndMap]
      = Inr \<lparr>key = 2, stream_url = Some ''u2'', duration = 7, title = Some ''A'', got_url = 0,
             songs = [\<lparr>song_uri = ''u2?client_id=k'', song_tag = \<lparr>time = 0, items = [(TAG_NAME, ''A'')]\<rparr>\<rparr>,
                      \<lparr>song_uri = ''u1?client_id=k'', song_tag = \<lparr>time = 0, items = [(TAG_NAME, ''A'')]\<rparr>\<rparr>]\<rparr>
   \<and> \<not> stores_title 2 [StartMap, MapKey ''stream_url'', String ''u2'', EndMap]"
proof -
  let ?c = "\<lparr>apikey = Some ''k''\<rparr>"
  let ?s = "\<lparr>song_uri = ''u1?client_id=k'', song_tag = \<lparr>time = 0, items = [(TAG_NAME, ''A'')]\<rparr>\<rparr>"
  let ?s2 = "\<lparr>song_uri = ''u2?client_id=k'', song_tag = \<lparr>time = 0, items = [(TAG_NAME, ''A'')]\<rparr>\<rparr>"
  let ?d = "\<lparr>key = 2, stream_url = Some ''u1'', duration = 7, title = Some ''A'', got_url = 1, songs = []\<rparr>"
  let ?d' = "\<lparr>key = 2, stream_url = Some ''u1'', duration = 7, title = Some ''A'', got_url = 0,
             songs = [?s]\<rparr>"
  let ?d'' = "\<lparr>key = 1, stream_url = Some ''u1'', duration = 7, title = Some ''B'', got_url = 0,
             songs = [?s]\<rparr>"
  let ?later = "\<lparr>key = 2, stream_url = Some ''u2'', duration = 7, title = Some ''A'', got_url = 0,
             songs = [?s2, ?s]\<rparr>"
  let ?evs = "[StartMap, MapKey ''title'', String ''B'', EndMap]"
  let ?stretch = "[StartMap, MapKey ''stream_url'', String ''u2'', EndMap]"
  have h1: "got_url ?d = 1" by simp
  have h2: "handle_end_map ?c ?d = Inr ?d'"
    by (simp add: handle_end_map_def make_tag_def)
  have h3: "got_url ?d' = 0" by simp
  have h4: "\<not> stores_stream_url (key ?d') ?evs" by (simp add: key_str_def key_defs)
  have h5: "run_callbacks ?c ?d' ?evs = Inr ?d''" by (simp add: eval_defs)
  have h6: "0 \<le> got_url ?d'" by simp
  have h7: "\<not> stores_title (key ?d') ?stretch" by (simp add: key_str_def key_defs)
  have h8: "run_callbacks ?c ?d' ?stretch = Inr ?later" by (simp add: eval_defs)
  from handle_end_map_keeps_scratch [of ?d ?c ?d' ?d' ?evs ?d'' ?d' ?stretch ?later]
    h1 h2 h3 h4 h5 h6 h7 h8
  show ?thesis by simp
qed

text \<open>
  Claim C4, as stated: a record whose JSON object has no duration field has duration 0.
  It fails on a document of two track objects of which only the first has a duration:
  the second song carries the 5000 milliseconds of the first (5 seconds).
\<close>

theorem missing_duration_not_zero_counterexample:
  "run_callbacks \<lparr>apikey = Some ''k''\<rparr> (initial_data 3 0)
     [StartArray,
      StartMap, MapKey ''duration'', Integer 5000, MapKey ''stream_url'', String ''u1'', EndMap,
      StartMap, MapKey ''stream_url'', String ''u2'', EndMap,
      EndArray]
   = Inr \<lparr>key = 2, stream_url = Some ''u2'', duration = 5000, title = None, got_url = 0,
          songs = [\<lparr>song_uri = ''u2?client_id=k'', song_tag = \<lparr>time = 5, items = []\<rparr>\<rparr>,
                   \<lparr>song_uri = ''u1?client_id=k'', song_tag = \<lparr>time = 5, items = []\<rparr>\<rparr>]\<rparr>"
  by (simp add: eval_defs)

text \<open>
  Claim C4, amended: over a stretch of events in which no integer is stored as a duration
  (as in an object without a duration field), the stored duration does not change, and
  every record emitted in that stretch carries the duration stored before it: its tag's
  time is that value divided by 1000, truncated towards zero and narrowed to the 32 bits
  of the \<open>int\<close> field.
\<close>

theorem record_without_duration_keeps_stored_duration:
  assumes "run_callbacks cfg data evs = Inr data'"
    and "0 \<le> got_url data"
    and "\<not> stores_duration (key data) evs"
  shows "duration data' = duration data
    \<and> (\<exists>new. songs data' = new @ songs data
          \<and> (\<forall>s \<in> set new. time (song_tag s) = signed_take_bit 31 (duration data sdiv 1000)))"
proof -
  let ?new = "rev (records_in_document_order cfg data evs)"
  have "songs data' = ?new @ songs data"
    using assms(1,2) by (rule run_callbacks_songs)
  moreover have "\<forall>s \<in> set ?new. time (song_tag s) = signed_take_bit 31 (duration data sdiv 1000)"
    using records_time [OF assms(3)] by simp
  moreover have "duration data' = duration data"
    using assms(1,3) by (rule run_callbacks_duration)
  ultimately show ?thesis by blast
qed

theorem record_without_duration_keeps_stored_duration_witness:
  "run_callbacks \<lparr>apikey = Some ''k''\<rparr>
      \<lparr>key = 2, stream_url = Some ''u1'', duration = 5000, title = None, got_url = 0, songs = []\<rparr>
      [StartMap, MapKey ''stream_url'', String ''u2'', EndMap]
    = Inr \<lparr>key = 2, stream_url = Some ''u2'', duration = 5000, title = None, got_url = 0,
           songs = [\<lparr>song_uri = ''u2?client_id=k'', song_tag = \<lparr>time = 5, items = []\<rparr>\<rparr>]\<rparr>
   \<and> \<not> stores_duration 2 [StartMap, MapKey ''stream_url'', String ''u2'', EndMap]
   \<and> (\<exists>new. [\<lparr>song_uri = ''u2?client_id=k'', song_tag = \<lparr>time = 5, items = []\<rparr>\<rparr>] = new @ []
          \<and> (\<forall>s \<in> set new. time (song_tag s) = 5))"
proof -
  let ?d = "\<lparr>key = 2, stream_url = Some ''u1'', duration = 5000, title = None, got_url = 0, songs = []\<rparr>"
  let ?d' = "\<lparr>key = 2, stream_url = Some ''u2'', duration = 5000, title = None, got_url = 0,
           songs = [\<lparr>song_uri = ''u2?client_id=k'', song_tag = \<lparr>time = 5, items = []\<rparr>\<rparr>]\<rparr>"
  let ?evs = "[StartMap, MapKey ''stream_url'', String ''u2'', EndMap]"
  have h1: "run_callbacks \<lparr>apikey = Some ''k''\<rparr> ?d ?evs = Inr ?d'"
    by (simp add: eval_defs)
  have h2: "0 \<le> got_url ?d" by simp
  have h3: "\<not> stores_duration (key ?d) ?evs"
    by (simp add: key_str_def key_defs)
  from record_without_duration_keeps_stored_duration [OF h1 h2 h3] h1 h3 show ?thesis by simp
qed

text \<open>
  Claim C5.  The claim: a map key that is not exactly \<open>duration\<close>, \<open>title\<close> or
  \<open>stream_url\<close> is classified as \<open>Other\<close> and the value after it is ignored.  The code
  compares with \<open>strncmp\<close> over the length of the key it was given, so the key \<open>t\<close> is
  taken for \<open>title\<close> (and the empty key for \<open>duration\<close>): the string after it is stored
  as the title of the record.
\<close>

theorem handle_mapkey_accepts_prefix:
  "key (handle_mapkey (initial_data 3 0) ''t'') = Title
   \<and> key (handle_mapkey (initial_data 3 0) []) = Duration
   \<and> run_callbacks \<lparr>apikey = Some ''k''\<rparr> (initial_data 3 0)
       [StartMap, MapKey ''t'', String ''x'', MapKey ''stream_url'', String ''u1'', EndMap]
     = Inr \<lparr>key = 2, stream_url = Some ''u1'', duration = 0, title = Some ''x'', got_url = 0,
            songs = [\<lparr>song_uri = ''u1?client_id=k'', song_tag = \<lparr>time = 0, items = [(TAG_NAME, ''x'')]\<rparr>\<rparr>]\<rparr>"
  by (simp add: eval_defs)

text \<open>
  Claim C8.  Whenever \<open>soundcloud_open_uri\<close> returns a provider, its songs are the records
  of the document in the order in which their objects close in the document: each record
  is put in front of the list as it closes, and the one reversal at the end restores the
  order of the document.
\<close>

theorem soundcloud_open_uri_document_order:
  assumes "soundcloud_open_uri cfg have_yajl1 stream_open key0 duration0 s = Inr (Some playlist)"
  shows "\<exists>u is. stream_open u = Some is
    \<and> playlist = records_in_document_order cfg (initial_data key0 duration0)
                   (events_consumed have_yajl1 (reads is) (ending is))"
proof -
  from assms obtain u ret data
    where p: "soundcloud_parse_json cfg have_yajl1 stream_open u (initial_data key0 duration0)
                = Inr (ret, data)"
      and ret: "ret \<noteq> - 1"
      and pl: "playlist = rev (songs data)"
    by (auto simp: soundcloud_open_uri_def Let_def split: if_splits option.splits sum.splits)
  from p ret obtain "is" where o: "stream_open u = Some is"
    and l: "parse_loop cfg have_yajl1 (reads is) (ending is) (initial_data key0 duration0)
              = Inr (ret, data)"
    by (auto simp: soundcloud_parse_json_def split: option.splits)
  have "songs data = rev (records_in_document_order cfg (initial_data key0 duration0)
                            (events_consumed have_yajl1 (reads is) (ending is)))
                     @ songs (initial_data key0 duration0)"
    by (rule run_callbacks_songs [OF parse_loop_consumed [OF l]]) (simp add: initial_data_def)
  with pl o show ?thesis by (auto simp: initial_data_def)
qed

theorem soundcloud_open_uri_document_order_witness:
  "soundcloud_open_uri \<lparr>apikey = Some ''k''\<rparr> False
     (\<lambda>u. if u = ''http://api.soundcloud.com/playlists/7.json?client_id=k''
          then Some \<lparr>reads = [([StartArray, StartMap, MapKey ''title'', String ''A'',
                                 MapKey ''stream_url''], yajl_status_ok),
                               ([String ''u1'', EndMap, StartMap, MapKey ''title'', String ''B'',
                                 MapKey ''stream_url'', String ''u2'', EndMap, EndArray],
                                yajl_status_ok)],
                      ending = EndOfFile [] yajl_status_ok\<rparr>
          else None)
     3 0 ''soundcloud://playlist/7''
   = Inr (Some [\<lparr>song_uri = ''u1?client_id=k'', song_tag = \<lparr>time = 0, items = [(TAG_NAME, ''A'')]\<rparr>\<rparr>,
                \<lparr>song_uri = ''u2?client_id=k'', song_tag = \<lparr>time = 0, items = [(TAG_NAME, ''B'')]\<rparr>\<rparr>])
   \<and> records_in_document_order \<lparr>apikey = Some ''k''\<rparr> (initial_data 3 0)
        (events_consumed False
           [([StartArray, StartMap, MapKey ''title'', String ''A'', MapKey ''stream_url''],
             yajl_status_ok),
            ([String ''u1'', EndMap, StartMap, MapKey ''title'', String ''B'',
              MapKey ''stream_url'', String ''u2'', EndMap, EndArray], yajl_status_ok)]
           (EndOfFile [] yajl_status_ok))
     = [\<lparr>song_uri = ''u1?client_id=k'', song_tag = \<lparr>time = 0, items = [(TAG_NAME, ''A'')]\<rparr>\<rparr>,
        \<lparr>song_uri = ''u2?client_id=k'', song_tag = \<lparr>time = 0, items = [(TAG_NAME, ''B'')]\<rparr>\<rparr>]"
proof -
  let ?net = "\<lambda>u. if u = ''http://api.soundcloud.com/playlists/7.json?client_id=k''
          then Some \<lparr>reads = [([StartArray, StartMap, MapKey ''title'', String ''A'',
                                 MapKey ''stream_url''], yajl_status_ok),
                               ([String ''u1'', EndMap, StartMap, MapKey ''title'', String ''B'',
                                 MapKey ''stream_url'', String ''u2'', EndMap, EndArray],
                                yajl_status_ok)],
                      ending = EndOfFile [] yajl_status_ok\<rparr>
          else None"
  let ?pl = "[\<lparr>song_uri = ''u1?client_id=k'', song_tag = \<lparr>time = 0, items = [(TAG_NAME, ''A'')]\<rparr>\<rparr>,
              \<lparr>song_uri = ''u2?client_id=k'', song_tag = \<lparr>time = 0, items = [(TAG_NAME, ''B'')]\<rparr>\<rparr>]"
  have h: "soundcloud_open_uri \<lparr>apikey = Some ''k''\<rparr> False ?net 3 0 ''soundcloud://playlist/7''
             = Inr (Some ?pl)"
    by (simp add: soundcloud_open_uri_def soundcloud_url_def strcmp_def soundcloud_parse_json_def
        decode_failed_def eval_defs)
  from soundcloud_open_uri_document_order [OF h] obtain u "is"
    where o: "?net u = Some is"
      and r: "?pl = records_in_document_order \<lparr>apikey = Some ''k''\<rparr> (initial_data 3 0)
                      (events_consumed False (reads is) (ending is))"
    by blast
  from o have "reads is = [([StartArray, StartMap, MapKey ''title'', String ''A'',
                                 MapKey ''stream_url''], yajl_status_ok),
                               ([String ''u1'', EndMap, StartMap, MapKey ''title'', String ''B'',
                                 MapKey ''stream_url'', String ''u2'', EndMap, EndArray],
                                yajl_status_ok)]"
    and "ending is = EndOfFile [] yajl_status_ok"
    by (auto split: if_splits)
  with r h show ?thesis by simp
qed

lemma parse_loop_data_ok:
  "data_ok data \<Longrightarrow> \<exists>r. parse_loop cfg y rs fin data = Inr r"
proof (induction cfg y rs fin data rule: parse_loop.induct)
  case (1 cfg y data)
  then show ?case by simp
next
  case (2 cfg y evs stat data)
  from run_callbacks_data_ok [OF "2.prems", of cfg evs] show ?case by auto
next
  case (3 cfg y evs stat rest fin data)
  from run_callbacks_data_ok [OF "3.prems", of cfg evs] obtain d1
    where d1: "run_callbacks cfg data evs = Inr d1" and ok: "data_ok d1" by blast
  show ?case
  proof (cases "decode_failed y stat")
    case True
    with d1 show ?thesis by simp
  next
    case False
    from "3.IH" [OF d1 False ok] d1 False show ?thesis by simp
  qed
qed

lemma initial_data_ok: "data_ok (initial_data key0 duration0)"
  by (simp add: data_ok_def initial_data_def)

text \<open>
  Claim C10.  From the initial state of \<open>soundcloud_open_uri\<close> every sequence of callbacks
  runs without handing a null \<open>stream_url\<close> to the URL synthesis, and leaves a state in
  which \<open>got_url > 0\<close> implies that \<open>stream_url\<close> is not null; so \<open>soundcloud_open_uri\<close>
  itself never stops on a null pointer.
\<close>

theorem got_url_implies_stream_url:
  "(\<exists>data'. run_callbacks cfg (initial_data key0 duration0) evs = Inr data'
       \<and> 0 \<le> got_url data' \<and> (0 < got_url data' \<longrightarrow> stream_url data' \<noteq> None))
   \<and> (\<exists>r. soundcloud_open_uri cfg have_yajl1 stream_open key0 duration0 s = Inr r)"
proof
  from run_callbacks_data_ok [OF initial_data_ok, of cfg key0 duration0 evs]
  show "\<exists>data'. run_callbacks cfg (initial_data key0 duration0) evs = Inr data'
       \<and> 0 \<le> got_url data' \<and> (0 < got_url data' \<longrightarrow> stream_url data' \<noteq> None)"
    by (auto simp: data_ok_def)
next
  have "\<exists>r. soundcloud_parse_json cfg have_yajl1 stream_open u (initial_data key0 duration0) = Inr r"
    for u
    using parse_loop_data_ok [OF initial_data_ok]
    by (auto simp: soundcloud_parse_json_def split: option.splits)
  then have "soundcloud_parse_json cfg have_yajl1 stream_open u (initial_data key0 duration0) \<noteq> Inl f"
    for u f
    by (metis sum.distinct(1))
  then show "\<exists>r. soundcloud_open_uri cfg have_yajl1 stream_open key0 duration0 s = Inr r"
    by (auto simp: soundcloud_open_uri_def Let_def split: option.splits sum.splits)
qed

theorem got_url_implies_stream_url_witness:
  "\<exists>data'. run_callbacks \<lparr>apikey = Some ''k''\<rparr> (initial_data 3 0)
              [StartMap, MapKey ''stream_url'', String ''u1'', StartMap] = Inr data'
     \<and> got_url data' = 2 \<and> 0 < got_url data' \<and> stream_url data' \<noteq> None"
proof -
  have "run_callbacks \<lparr>apikey = Some ''k''\<rparr> (initial_data 3 0)
          [StartMap, MapKey ''stream_url'', String ''u1'', StartMap]
        = Inr \<lparr>key = 2, stream_url = Some ''u1'', duration = 0, title = None, got_url = 2, songs = []\<rparr>"
    by (simp add: eval_defs)
  with got_url_implies_stream_url [of "\<lparr>apikey = Some ''k''\<rparr>" 3 0
      "[StartMap, MapKey ''stream_url'', String ''u1'', StartMap]"]
  show ?thesis by auto
qed

section \<open>Properties of the registry\<close>

lemmas example_defs = example_environment_def example_plugins_def example_config_def

subsection \<open>Opening a URI: the array \<open>tried\<close>\<close>

lemma scheme_loop_tried:
  "open_uri_scheme_loop env enabled u scheme i ps tried w = (None, tried', probed, w') \<Longrightarrow>
   i + length ps \<le> length tried \<Longrightarrow>
   length tried' = length tried
   \<and> (\<forall>j < length tried. tried ! j \<longrightarrow> tried' ! j)
   \<and> (\<forall>j \<in> set probed. tried' ! j)"
proof (induction ps arbitrary: i tried probed w)
  case Nil
  then show ?case by simp
next
  case (Cons plugin rest)
  show ?case
  proof (cases "scheme_candidate env enabled scheme i plugin")
    case None
    with Cons.prems have "open_uri_scheme_loop env enabled u scheme (Suc i) rest tried w
        = (None, tried', probed, w')" by simp
    from Cons.IH [OF this] Cons.prems(2) show ?thesis by simp
  next
    case (Some f)
    with Cons.prems(1) obtain w1 probed1
      where f: "f u w = (None, w1)"
        and r: "open_uri_scheme_loop env enabled u scheme (Suc i) rest (tried[i := True]) w1
                  = (None, tried', probed1, w')"
        and p: "probed = i # probed1"
      by (auto split: prod.splits option.splits)
    from Cons.IH [OF r] Cons.prems(2)
    have len: "length tried' = length tried"
      and mono: "\<forall>j < length tried. (tried[i := True]) ! j \<longrightarrow> tried' ! j"
      and pr: "\<forall>j \<in> set probed1. tried' ! j"
      by simp_all
    from Cons.prems(2) have i: "i < length tried" by simp
    with mono have "tried' ! i" by simp
    moreover from mono have "\<forall>j < length tried. tried ! j \<longrightarrow> tried' ! j"
      by (metis nth_list_update_eq nth_list_update_neq)
    ultimately show ?thesis using len pr p by simp
  qed
qed

lemma suffix_loop_probed:
  "open_uri_suffix_loop env enabled u suffix i ps tried w = (playlist, probed, w') \<Longrightarrow>
   j \<in> set probed \<Longrightarrow> \<not> tried ! j"
proof (induction ps arbitrary: i probed w playlist)
  case Nil
  then show ?case by simp
next
  case (Cons plugin rest)
  show ?case
  proof (cases "suffix_candidate env enabled tried suffix i plugin")
    case None
    with Cons.prems(1) have "open_uri_suffix_loop env enabled u suffix (Suc i) rest tried w
        = (playlist, probed, w')" by simp
    from Cons.IH [OF this Cons.prems(2)] show ?thesis .
  next
    case (Some f)
    then have i: "\<not> tried ! i"
      by (auto simp: suffix_candidate_def split: if_splits)
    show ?thesis
    proof (cases "f u w")
      case (Pair r w1)
      show ?thesis
      proof (cases r)
        case None
        with Pair Some Cons.prems(1) obtain probed1 where
          r: "open_uri_suffix_loop env enabled u suffix (Suc i) rest tried w1 = (playlist, probed1, w')"
          and p: "probed = i # probed1"
          by (auto split: prod.splits)
        from Cons.prems(2) p have "j = i \<or> j \<in> set probed1" by simp
        with Cons.IH [OF r] i show ?thesis by blast
      next
        case (Some pl)
        with Pair \<open>suffix_candidate env enabled tried suffix i plugin = Some f\<close> Cons.prems
        show ?thesis using i by auto
      qed
    qed
  qed
qed

text \<open>
  Claim C2.  In one call of \<open>playlist_list_open_uri\<close>, a plugin that the scheme pass
  probed (it was enabled, could open a URI and listed the scheme) and that did not open
  the URI is not probed by the suffix pass, whatever its suffixes are.  A scheme probe
  that succeeds ends the call, so every scheme probe in a call that reaches the suffix
  pass has failed.
\<close>

theorem open_uri_scheme_failure_not_retried:
  assumes "playlist_list_open_uri env plugins enabled u w = (playlist, probes, w')"
    and "SchemeProbe i \<in> set probes"
  shows "SuffixProbe i \<notin> set probes"
proof (cases "playlist_list_open_uri_scheme env plugins enabled u (replicate (length plugins) False) w")
  case (fields r tried probed w1)
  show ?thesis
  proof (cases r)
    case (Some pl)
    with fields assms(1) have "probes = map SchemeProbe probed"
      by (simp add: playlist_list_open_uri_def)
    then show ?thesis by auto
  next
    case None
    obtain r2 probed2 w2 where s: "playlist_list_open_uri_suffix env plugins enabled u tried w1
        = (r2, probed2, w2)"
      by (cases "playlist_list_open_uri_suffix env plugins enabled u tried w1") auto
    with None fields assms(1) have pr: "probes = map SchemeProbe probed @ map SuffixProbe probed2"
      by (simp add: playlist_list_open_uri_def)
    with assms(2) have i: "i \<in> set probed" by auto
    have "tried ! i"
    proof (cases "g_uri_parse_scheme env u")
      case None
      with fields i show ?thesis by (simp add: playlist_list_open_uri_scheme_def)
    next
      case (Some scheme)
      with fields \<open>r = None\<close>
      have "open_uri_scheme_loop env enabled u scheme 0 plugins (replicate (length plugins) False) w
              = (None, tried, probed, w1)"
        by (simp add: playlist_list_open_uri_scheme_def)
      from scheme_loop_tried [OF this] i show ?thesis by simp
    qed
    have "i \<notin> set probed2"
    proof (cases "uri_get_suffix env u")
      case None
      with s show ?thesis by (auto simp: playlist_list_open_uri_suffix_def)
    next
      case (Some suffix)
      with s have "open_uri_suffix_loop env enabled u suffix 0 plugins tried w1 = (r2, probed2, w2)"
        by (simp add: playlist_list_open_uri_suffix_def)
      from suffix_loop_probed [OF this] \<open>tried ! i\<close> show ?thesis by blast
    qed
    with pr show ?thesis by auto
  qed
qed

text \<open>
  The plugin \<open>m3u\<close> (index 1) lists the scheme \<open>http\<close> and the suffix \<open>m3u\<close> and fails to
  open the URI: the suffix pass probes \<open>extm3u\<close> (index 0) only.
\<close>

theorem open_uri_scheme_failure_not_retried_witness:
  "playlist_list_open_uri (example_environment None) example_plugins
      [True, True, True, True, False] ''http://x/a.m3u'' 0
     = (None, [SchemeProbe 1, SuffixProbe 0], 2)
   \<and> SchemeProbe 1 \<in> set [SchemeProbe 1, SuffixProbe 0]
   \<and> SuffixProbe 1 \<notin> set [SchemeProbe 1, SuffixProbe 0]"
proof -
  have h1: "playlist_list_open_uri (example_environment None) example_plugins
      [True, True, True, True, False] ''http://x/a.m3u'' 0
     = (None, [SchemeProbe 1, SuffixProbe 0], 2)"
    by (simp add: example_defs playlist_list_open_uri_def playlist_list_open_uri_scheme_def
        playlist_list_open_uri_suffix_def scheme_candidate_def suffix_candidate_def)
  have h2: "SchemeProbe 1 \<in> set [SchemeProbe 1, SuffixProbe 0]" by simp
  from open_uri_scheme_failure_not_retried [OF h1 h2] h1 h2 show ?thesis by blast
qed

subsection \<open>Opening a stream: MIME type before suffix\<close>

lemma strchr_takeWhile:
  "strchr s c = Some k \<Longrightarrow> take k s = takeWhile (\<lambda>x. x \<noteq> c) s"
  by (induction s arbitrary: k) (auto split: if_splits)

lemma strchr_None: "(strchr s c = None) = (c \<notin> set s)"
  by (induction s) auto

lemma g_strndup_take: "NUL \<notin> set s \<Longrightarrow> g_strndup s n = take n s"
proof -
  assume "NUL \<notin> set s"
  then have "\<forall>x \<in> set (take n s). x \<noteq> NUL"
    by (metis in_set_takeD)
  then show ?thesis by (simp add: g_strndup_def)
qed

lemma open_stream_mime_strips_parameters:
  assumes "NUL \<notin> set full_mime" and "strchr full_mime CHR '';'' \<noteq> Some 0"
  shows "playlist_list_open_stream_mime env plugins enabled full_mime w
    = playlist_list_open_stream_mime2 env plugins enabled
        (takeWhile (\<lambda>c. c \<noteq> CHR '';'') full_mime) w"
proof (cases "strchr full_mime CHR '';''")
  case None
  then have "CHR '';'' \<notin> set full_mime" by (simp add: strchr_None)
  then have tw: "takeWhile (\<lambda>c. c \<noteq> CHR '';'') full_mime = full_mime"
    by (auto simp: takeWhile_eq_all_conv)
  show ?thesis
    by (subst tw) (simp add: playlist_list_open_stream_mime_def None)
next
  case (Some k)
  with assms(2) have "k \<noteq> 0" by simp
  with Some strchr_takeWhile [OF Some] g_strndup_take [OF assms(1)]
  show ?thesis by (simp add: playlist_list_open_stream_mime_def)
qed

lemma open_stream_mime_leading_semicolon:
  "playlist_list_open_stream_mime env plugins enabled (CHR '';'' # rest) w = (None, [], w)"
  by (simp add: playlist_list_open_stream_mime_def)

lemma mime2_loop_only_candidate:
  assumes "k < length ps"
    and "stream_candidate env enabled (mime_types (ps ! k)) mime (i + k) (ps ! k) = Some f"
    and "\<forall>j < length ps. j \<noteq> k \<longrightarrow>
           stream_candidate env enabled (mime_types (ps ! j)) mime (i + j) (ps ! j) = None"
    and "f (Seek env w) = (Some playlist, w')"
  shows "open_stream_mime2_loop env enabled mime i ps w = (Some playlist, [i + k], w')"
  using assms
proof (induction ps arbitrary: i k)
  case Nil
  then show ?case by simp
next
  case (Cons plugin rest)
  show ?case
  proof (cases k)
    case 0
    with Cons.prems show ?thesis by simp
  next
    case (Suc k')
    from Cons.prems(3) Suc
    have none: "stream_candidate env enabled (mime_types plugin) mime i plugin = None"
      by fastforce
    have a: "k' < length rest" using Cons.prems(1) Suc by simp
    have b: "stream_candidate env enabled (mime_types (rest ! k')) mime (Suc i + k') (rest ! k') = Some f"
      using Cons.prems(2) Suc by simp
    have c: "\<forall>j < length rest. j \<noteq> k' \<longrightarrow>
           stream_candidate env enabled (mime_types (rest ! j)) mime (Suc i + j) (rest ! j) = None"
    proof (intro allI impI)
      fix j assume "j < length rest" "j \<noteq> k'"
      with Cons.prems(3) [rule_format, of "Suc j"] Suc show
        "stream_candidate env enabled (mime_types (rest ! j)) mime (Suc i + j) (rest ! j) = None"
        by simp
    qed
    from Cons.IH [OF a b c Cons.prems(4)] none Suc show ?thesis by simp
  qed
qed

lemma mime2_loop_first_candidate:
  assumes "k < length ps"
    and "stream_candidate env enabled (mime_types (ps ! k)) mime (i + k) (ps ! k) = Some f"
    and "\<forall>j < k. stream_candidate env enabled (mime_types (ps ! j)) mime (i + j) (ps ! j) = None"
    and "f (Seek env w) = (Some playlist, w')"
  shows "open_stream_mime2_loop env enabled mime i ps w = (Some playlist, [i + k], w')"
  using assms
proof (induction ps arbitrary: i k)
  case Nil
  then show ?case by simp
next
  case (Cons plugin rest)
  show ?case
  proof (cases k)
    case 0
    with Cons.prems show ?thesis by simp
  next
    case (Suc k')
    from Cons.prems(3) Suc
    have none: "stream_candidate env enabled (mime_types plugin) mime i plugin = None"
      by fastforce
    have a: "k' < length rest" using Cons.prems(1) Suc by simp
    have b: "stream_candidate env enabled (mime_types (rest ! k')) mime (Suc i + k') (rest ! k') = Some f"
      using Cons.prems(2) Suc by simp
    have c: "\<forall>j < k'. stream_candidate env enabled (mime_types (rest ! j)) mime (Suc i + j) (rest ! j) = None"
    proof (intro allI impI)
      fix j assume "j < k'"
      with Cons.prems(3) [rule_format, of "Suc j"] Suc show
        "stream_candidate env enabled (mime_types (rest ! j)) mime (Suc i + j) (rest ! j) = None"
        by simp
    qed
    from Cons.IH [OF a b c Cons.prems(4)] none Suc show ?thesis by simp
  qed
qed

lemma mime2_loop_probed:
  "open_stream_mime2_loop env enabled mime i ps w = (r, probed, w') \<Longrightarrow> j \<in> set probed \<Longrightarrow>
   i \<le> j \<and> j < i + length ps
   \<and> stream_candidate env enabled (mime_types (ps ! (j - i))) mime j (ps ! (j - i)) \<noteq> None"
proof (induction ps arbitrary: i probed w r)
  case Nil
  then show ?case by simp
next
  case (Cons plugin rest)
  have step: "i \<le> j \<and> j < i + length (plugin # rest)
      \<and> stream_candidate env enabled (mime_types ((plugin # rest) ! (j - i))) mime j
            ((plugin # rest) ! (j - i)) \<noteq> None"
    if "Suc i \<le> j \<and> j < Suc i + length rest
      \<and> stream_candidate env enabled (mime_types (rest ! (j - Suc i))) mime j
            (rest ! (j - Suc i)) \<noteq> None"
  proof -
    from that have "(plugin # rest) ! (j - i) = rest ! (j - Suc i)"
      by (simp add: nth_Cons')
    with that show ?thesis by auto
  qed
  show ?case
  proof (cases "stream_candidate env enabled (mime_types plugin) mime i plugin")
    case None
    with Cons.prems(1) have "open_stream_mime2_loop env enabled mime (Suc i) rest w = (r, probed, w')"
      by simp
    from step [OF Cons.IH [OF this Cons.prems(2)]] show ?thesis .
  next
    case (Some f)
    show ?thesis
    proof (cases "j = i")
      case True
      with Some show ?thesis by simp
    next
      case False
      obtain r1 w1 where f: "f (Seek env w) = (r1, w1)" by (cases "f (Seek env w)") auto
      show ?thesis
      proof (cases r1)
        case None
        with f Some Cons.prems(1) obtain probed1 where
          l: "open_stream_mime2_loop env enabled mime (Suc i) rest w1 = (r, probed1, w')"
          and p: "probed = i # probed1"
          by (auto split: prod.splits)
        from Cons.prems(2) p False have "j \<in> set probed1" by simp
        from step [OF Cons.IH [OF l this]] show ?thesis .
      next
        case (Some pl)
        with f \<open>stream_candidate env enabled (mime_types plugin) mime i plugin = Some f\<close>
          Cons.prems False
        show ?thesis by auto
      qed
    qed
  qed
qed

text \<open>
  Claim C6.  When the stream has a usable MIME type (the string does not begin with a
  semicolon), the part of it before the first semicolon is listed by exactly one plugin
  that is enabled and can open streams, and this plugin opens the rewound stream, then
  \<open>playlist_list_open_stream\<close> returns its playlist and the only probe of the call is
  the MIME probe of this plugin: the suffix pass is not entered, whatever URI was given.
\<close>

theorem open_stream_mime_before_suffix:
  assumes "GetMimeType env (LockWaitReady env w) = Some full_mime"
    and "NUL \<notin> set full_mime"
    and "strchr full_mime CHR '';'' \<noteq> Some 0"
    and "k < length plugins"
    and "enabled ! k"
    and "open_stream (plugins ! k) = Some f"
    and "mime_types (plugins ! k) = Some types"
    and "string_array_contains env types (takeWhile (\<lambda>c. c \<noteq> CHR '';'') full_mime)"
    and "\<forall>j < length plugins. j \<noteq> k \<longrightarrow>
           stream_candidate env enabled (mime_types (plugins ! j))
             (takeWhile (\<lambda>c. c \<noteq> CHR '';'') full_mime) j (plugins ! j) = None"
    and "f (Seek env (LockWaitReady env w)) = (Some playlist, w')"
  shows "playlist_list_open_stream env plugins enabled u w = (Some playlist, [MimeProbe k], w')"
proof -
  let ?mime = "takeWhile (\<lambda>c. c \<noteq> CHR '';'') full_mime"
  have cand: "stream_candidate env enabled (mime_types (plugins ! k)) ?mime (0 + k) (plugins ! k) = Some f"
    using assms(5-8) by (simp add: stream_candidate_def)
  have others: "\<forall>j < length plugins. j \<noteq> k \<longrightarrow>
           stream_candidate env enabled (mime_types (plugins ! j)) ?mime (0 + j) (plugins ! j) = None"
    using assms(9) by simp
  have "open_stream_mime2_loop env enabled ?mime 0 plugins (LockWaitReady env w)
          = (Some playlist, [0 + k], w')"
    by (rule mime2_loop_only_candidate [OF assms(4) cand others assms(10)])
  then have "playlist_list_open_stream_mime env plugins enabled full_mime (LockWaitReady env w)
          = (Some playlist, [k], w')"
    by (simp add: open_stream_mime_strips_parameters [OF assms(2,3)]
        playlist_list_open_stream_mime2_def)
  with assms(1) show ?thesis
    by (simp add: playlist_list_open_stream_def open_stream_mime_step_def)
qed

theorem open_stream_mime_before_suffix_witness:
  "playlist_list_open_stream (example_environment (Some ''text/xml; charset=utf-8''))
      example_plugins [True, True, True, True, False] (Some ''http://x/a.m3u'') 0
     = (Some ''xspf'', [MimeProbe 2], 1)
   \<and> uri_get_suffix (example_environment (Some ''text/xml; charset=utf-8'')) ''http://x/a.m3u''
     = Some ''m3u''
   \<and> suffixes (example_plugins ! 1) = Some [''m3u'']
   \<and> suffixes (example_plugins ! 2) = Some [''xspf'']"
proof -
  let ?full = "''text/xml; charset=utf-8''"
  let ?env = "example_environment (Some ?full)"
  let ?enabled = "[True, True, True, True, False]"
  let ?f = "\<lambda>w::nat. (Some ''xspf'', Suc w)"
  have h1: "GetMimeType ?env (LockWaitReady ?env 0) = Some ?full"
    by (simp add: example_defs)
  have h2: "NUL \<notin> set ?full" by (simp add: NUL_def)
  have h3: "strchr ?full CHR '';'' \<noteq> Some 0" by simp
  have h4: "2 < length example_plugins" by (simp add: example_defs)
  have h5: "?enabled ! 2" by simp
  have h6: "open_stream (example_plugins ! 2) = Some ?f" by (simp add: example_defs)
  have h7: "mime_types (example_plugins ! 2) = Some [''text/xml'']" by (simp add: example_defs)
  have h8: "string_array_contains ?env [''text/xml''] (takeWhile (\<lambda>c. c \<noteq> CHR '';'') ?full)"
    by (simp add: example_defs)
  have h9: "\<forall>j < length example_plugins. j \<noteq> 2 \<longrightarrow>
      stream_candidate ?env ?enabled (mime_types (example_plugins ! j))
        (takeWhile (\<lambda>c. c \<noteq> CHR '';'') ?full) j (example_plugins ! j) = None"
  proof (intro allI impI)
    fix j assume "j < length example_plugins" "j \<noteq> 2"
    then consider "j = 0" | "j = 1" | "j = 3"
      by (auto simp: example_defs less_Suc_eq)
    then show "stream_candidate ?env ?enabled (mime_types (example_plugins ! j))
        (takeWhile (\<lambda>c. c \<noteq> CHR '';'') ?full) j (example_plugins ! j) = None"
      by cases (simp_all add: example_defs stream_candidate_def)
  qed
  have h10: "?f (Seek ?env (LockWaitReady ?env 0)) = (Some ''xspf'', 1)"
    by (simp add: example_defs)
  have "playlist_list_open_stream ?env example_plugins ?enabled (Some ''http://x/a.m3u'') 0
     = (Some ''xspf'', [MimeProbe 2], 1)"
    by (rule open_stream_mime_before_suffix [OF h1 h2 h3 h4 h5 h6 h7 h8 h9 h10])
  then show ?thesis by (simp add: example_defs)
qed

text \<open>
  Claim C7.  A MIME string with a semicolon that is not its first character is matched
  as its part before the first semicolon: \<open>playlist_list_open_stream\<close> returns the playlist
  of the first plugin that is enabled, can open streams and lists this part, when it opens
  the rewound stream, and every plugin that the call probes by MIME type lists this part.
  A MIME string that begins with a semicolon is not matched at all, no plugin is probed by
  MIME type, and \<open>playlist_list_open_stream\<close> goes on to the suffix of the URI.
\<close>

theorem open_stream_mime_parameter_segment:
  "(NUL \<notin> set full_mime \<longrightarrow> CHR '';'' \<in> set full_mime \<longrightarrow> strchr full_mime CHR '';'' \<noteq> Some 0 \<longrightarrow>
      playlist_list_open_stream_mime env plugins enabled full_mime w
        = playlist_list_open_stream_mime2 env plugins enabled
            (takeWhile (\<lambda>c. c \<noteq> CHR '';'') full_mime) w)
   \<and> playlist_list_open_stream_mime env plugins enabled (CHR '';'' # rest) w = (None, [], w)
   \<and> (GetMimeType env (LockWaitReady env w) = Some (CHR '';'' # rest) \<longrightarrow>
        playlist_list_open_stream env plugins enabled u w
          = (case open_stream_suffix_step env plugins enabled u (LockWaitReady env w) of
               (playlist, probed, w') \<Rightarrow> (playlist, map SuffixProbe probed, w')))
   \<and> (GetMimeType env (LockWaitReady env w) = Some full_mime \<longrightarrow>
        NUL \<notin> set full_mime \<longrightarrow> CHR '';'' \<in> set full_mime \<longrightarrow>
        strchr full_mime CHR '';'' \<noteq> Some 0 \<longrightarrow>
        k < length plugins \<longrightarrow> enabled ! k \<longrightarrow> open_stream (plugins ! k) = Some f \<longrightarrow>
        mime_types (plugins ! k) = Some types \<longrightarrow>
        string_array_contains env types (takeWhile (\<lambda>c. c \<noteq> CHR '';'') full_mime) \<longrightarrow>
        (\<forall>j < k. stream_candidate env enabled (mime_types (plugins ! j))
                   (takeWhile (\<lambda>c. c \<noteq> CHR '';'') full_mime) j (plugins ! j) = None) \<longrightarrow>
        f (Seek env (LockWaitReady env w)) = (Some opened, w1) \<longrightarrow>
        playlist_list_open_stream env plugins enabled u w = (Some opened, [MimeProbe k], w1))
   \<and> (GetMimeType env (LockWaitReady env w) = Some full_mime \<longrightarrow>
        NUL \<notin> set full_mime \<longrightarrow> CHR '';'' \<in> set full_mime \<longrightarrow>
        strchr full_mime CHR '';'' \<noteq> Some 0 \<longrightarrow>
        playlist_list_open_stream env plugins enabled u w = (result, probes, w2) \<longrightarrow>
        MimeProbe i \<in> set probes \<longrightarrow>
        i < length plugins \<and> enabled ! i \<and> open_stream (plugins ! i) \<noteq> None
        \<and> (\<exists>listed. mime_types (plugins ! i) = Some listed
              \<and> string_array_contains env listed (takeWhile (\<lambda>c. c \<noteq> CHR '';'') full_mime)))"
proof (intro conjI impI)
  let ?cut = "takeWhile (\<lambda>c. c \<noteq> CHR '';'') full_mime"
  show "playlist_list_open_stream_mime env plugins enabled (CHR '';'' # rest) w = (None, [], w)"
    by (rule open_stream_mime_leading_semicolon)
  show "playlist_list_open_stream_mime env plugins enabled full_mime w
        = playlist_list_open_stream_mime2 env plugins enabled ?cut w"
    if "NUL \<notin> set full_mime" "strchr full_mime CHR '';'' \<noteq> Some 0"
    using that by (rule open_stream_mime_strips_parameters)
  show "playlist_list_open_stream env plugins enabled u w
          = (case open_stream_suffix_step env plugins enabled u (LockWaitReady env w) of
               (playlist, probed, w') \<Rightarrow> (playlist, map SuffixProbe probed, w'))"
    if "GetMimeType env (LockWaitReady env w) = Some (CHR '';'' # rest)"
    using that
    by (auto simp: open_stream_mime_leading_semicolon playlist_list_open_stream_def
        open_stream_mime_step_def split: prod.splits)
  show "playlist_list_open_stream env plugins enabled u w = (Some opened, [MimeProbe k], w1)"
    if g: "GetMimeType env (LockWaitReady env w) = Some full_mime"
      and n: "NUL \<notin> set full_mime" and z: "strchr full_mime CHR '';'' \<noteq> Some 0"
      and k: "k < length plugins" and e: "enabled ! k"
      and o: "open_stream (plugins ! k) = Some f"
      and t: "mime_types (plugins ! k) = Some types"
      and c: "string_array_contains env types ?cut"
      and b: "\<forall>j < k. stream_candidate env enabled (mime_types (plugins ! j)) ?cut j (plugins ! j) = None"
      and s: "f (Seek env (LockWaitReady env w)) = (Some opened, w1)"
  proof -
    have cand: "stream_candidate env enabled (mime_types (plugins ! k)) ?cut (0 + k) (plugins ! k) = Some f"
      using e o t c by (simp add: stream_candidate_def)
    have before: "\<forall>j < k. stream_candidate env enabled (mime_types (plugins ! j)) ?cut (0 + j)
                    (plugins ! j) = None"
      using b by simp
    have "open_stream_mime2_loop env enabled ?cut 0 plugins (LockWaitReady env w)
            = (Some opened, [0 + k], w1)"
      by (rule mime2_loop_first_candidate [OF k cand before s])
    then have "playlist_list_open_stream_mime env plugins enabled full_mime (LockWaitReady env w)
            = (Some opened, [k], w1)"
      by (simp add: open_stream_mime_strips_parameters [OF n z] playlist_list_open_stream_mime2_def)
    with g show ?thesis
      by (simp add: playlist_list_open_stream_def open_stream_mime_step_def)
  qed
  have probed: "i < length plugins \<and> enabled ! i \<and> open_stream (plugins ! i) \<noteq> None
        \<and> (\<exists>listed. mime_types (plugins ! i) = Some listed
              \<and> string_array_contains env listed ?cut)"
    if g: "GetMimeType env (LockWaitReady env w) = Some full_mime"
      and n: "NUL \<notin> set full_mime" and z: "strchr full_mime CHR '';'' \<noteq> Some 0"
      and r: "playlist_list_open_stream env plugins enabled u w = (result, probes, w2)"
      and m: "MimeProbe i \<in> set probes"
  proof -
    obtain r1 probed1 w3 where
      l: "open_stream_mime2_loop env enabled ?cut 0 plugins (LockWaitReady env w) = (r1, probed1, w3)"
      by (cases "open_stream_mime2_loop env enabled ?cut 0 plugins (LockWaitReady env w)") auto
    with g have step: "open_stream_mime_step env plugins enabled (LockWaitReady env w)
        = (r1, probed1, w3)"
      by (simp add: open_stream_mime_step_def open_stream_mime_strips_parameters [OF n z]
          playlist_list_open_stream_mime2_def)
    have "i \<in> set probed1"
    proof (cases r1)
      case None
      with step r m show ?thesis
        by (auto simp: playlist_list_open_stream_def split: prod.splits)
    next
      case (Some pl)
      with step r m show ?thesis
        by (auto simp: playlist_list_open_stream_def)
    qed
    from mime2_loop_probed [OF l this]
    have "i < length plugins"
      and "stream_candidate env enabled (mime_types (plugins ! i)) ?cut i (plugins ! i) \<noteq> None"
      by simp_all
    then show ?thesis
      by (auto simp: stream_candidate_def split: if_splits option.splits)
  qed
  show "i < length plugins"
    if "GetMimeType env (LockWaitReady env w) = Some full_mime" "NUL \<notin> set full_mime"
      "strchr full_mime CHR '';'' \<noteq> Some 0"
      "playlist_list_open_stream env plugins enabled u w = (result, probes, w2)"
      "MimeProbe i \<in> set probes"
    using probed [OF that] by simp
  show "enabled ! i"
    if "GetMimeType env (LockWaitReady env w) = Some full_mime" "NUL \<notin> set full_mime"
      "strchr full_mime CHR '';'' \<noteq> Some 0"
      "playlist_list_open_stream env plugins enabled u w = (result, probes, w2)"
      "MimeProbe i \<in> set probes"
    using probed [OF that] by simp
  show "open_stream (plugins ! i) \<noteq> None"
    if "GetMimeType env (LockWaitReady env w) = Some full_mime" "NUL \<notin> set full_mime"
      "strchr full_mime CHR '';'' \<noteq> Some 0"
      "playlist_list_open_stream env plugins enabled u w = (result, probes, w2)"
      "MimeProbe i \<in> set probes"
    using probed [OF that] by simp
  show "\<exists>listed. mime_types (plugins ! i) = Some listed \<and> string_array_contains env listed ?cut"
    if "GetMimeType env (LockWaitReady env w) = Some full_mime" "NUL \<notin> set full_mime"
      "strchr full_mime CHR '';'' \<noteq> Some 0"
      "playlist_list_open_stream env plugins enabled u w = (result, probes, w2)"
      "MimeProbe i \<in> set probes"
    using probed [OF that] by simp
qed

text \<open>
  The stream says \<open>text/xml; charset=utf-8\<close> and \<open>xspf\<close> (index 2) lists \<open>text/xml\<close>: it is
  probed by MIME type and opens the stream.  When the stream says \<open>;charset=utf-8\<close>, no
  plugin is probed by MIME type and the suffix \<open>m3u\<close> of the URI decides.
\<close>

theorem open_stream_mime_parameter_segment_witness:
  "playlist_list_open_stream (example_environment (Some ''text/xml; charset=utf-8''))
      example_plugins [True, True, True, True, False] (Some ''http://x/a.m3u'') 0
     = (Some ''xspf'', [MimeProbe 2], 1)
   \<and> mime_types (example_plugins ! 2) = Some [''text/xml'']
   \<and> playlist_list_open_stream_mime (example_environment (Some '';charset=utf-8'')) example_plugins
      [True, True, True, True, False] ''text/xml; charset=utf-8'' 0
     = playlist_list_open_stream_mime2 (example_environment (Some '';charset=utf-8'')) example_plugins
         [True, True, True, True, False] ''text/xml'' 0
   \<and> playlist_list_open_stream_mime (example_environment (Some '';charset=utf-8'')) example_plugins
       [True, True, True, True, False] '';charset=utf-8'' 0
     = (None, [], 0)
   \<and> playlist_list_open_stream (example_environment (Some '';charset=utf-8'')) example_plugins
       [True, True, True, True, False] (Some ''http://x/a.m3u'') 0
     = (Some ''m3u'', [SuffixProbe 0, SuffixProbe 1], 2)"
proof -
  let ?full = "''text/xml; charset=utf-8''"
  let ?env1 = "example_environment (Some ?full)"
  let ?env = "example_environment (Some '';charset=utf-8'')"
  let ?enabled = "[True, True, True, True, False]"
  let ?f = "\<lambda>w::nat. (Some ''xspf'', Suc w)"
  have h1: "GetMimeType ?env1 (LockWaitReady ?env1 0) = Some ?full"
    by (simp add: example_defs)
  have h2: "NUL \<notin> set ?full" by (simp add: NUL_def)
  have h3: "CHR '';'' \<in> set ?full" by simp
  have h4: "strchr ?full CHR '';'' \<noteq> Some 0" by simp
  have h5: "2 < length example_plugins" by (simp add: example_defs)
  have h6: "?enabled ! 2" by simp
  have h7: "open_stream (example_plugins ! 2) = Some ?f" by (simp add: example_defs)
  have h8: "mime_types (example_plugins ! 2) = Some [''text/xml'']" by (simp add: example_defs)
  have h9: "string_array_contains ?env1 [''text/xml''] (takeWhile (\<lambda>c. c \<noteq> CHR '';'') ?full)"
    by (simp add: example_defs)
  have h10: "\<forall>j < 2. stream_candidate ?env1 ?enabled (mime_types (example_plugins ! j))
        (takeWhile (\<lambda>c. c \<noteq> CHR '';'') ?full) j (example_plugins ! j) = None"
  proof (intro allI impI)
    fix j :: nat assume "j < 2"
    then consider "j = 0" | "j = 1" by (auto simp: less_Suc_eq numeral_2_eq_2)
    then show "stream_candidate ?env1 ?enabled (mime_types (example_plugins ! j))
        (takeWhile (\<lambda>c. c \<noteq> CHR '';'') ?full) j (example_plugins ! j) = None"
      by cases (simp_all add: example_defs stream_candidate_def)
  qed
  have h11: "?f (Seek ?env1 (LockWaitReady ?env1 0)) = (Some ''xspf'', 1)"
    by (simp add: example_defs)
  have a: "playlist_list_open_stream ?env1 example_plugins ?enabled (Some ''http://x/a.m3u'') 0
     = (Some ''xspf'', [MimeProbe 2], 1)"
    using open_stream_mime_parameter_segment
      [where full_mime = ?full and env = ?env1 and plugins = example_plugins
        and enabled = ?enabled and w = 0 and k = 2 and f = ?f and types = "[''text/xml'']"
        and opened = "''xspf''" and ?w1.0 = 1 and u = "Some ''http://x/a.m3u''"]
      h1 h2 h3 h4 h5 h6 h7 h8 h9 h10 h11
    by blast
  have g: "GetMimeType ?env (LockWaitReady ?env 0) = Some (CHR '';'' # ''charset=utf-8'')"
    by (simp add: example_defs)
  have s: "open_stream_suffix_step ?env example_plugins ?enabled (Some ''http://x/a.m3u'')
             (LockWaitReady ?env 0) = (Some ''m3u'', [0, 1], 2)"
    by (simp add: example_defs open_stream_suffix_step_def playlist_list_open_stream_suffix_def
        stream_candidate_def)
  from open_stream_mime_parameter_segment
    [where full_mime = ?full and env = ?env and plugins = example_plugins
      and enabled = ?enabled and w = 0 and rest = "''charset=utf-8''"
      and u = "Some ''http://x/a.m3u''"] g s
  have b: "playlist_list_open_stream_mime ?env example_plugins ?enabled ?full 0
     = playlist_list_open_stream_mime2 ?env example_plugins ?enabled ''text/xml'' 0
   \<and> playlist_list_open_stream_mime ?env example_plugins ?enabled '';charset=utf-8'' 0
     = (None, [], 0)
   \<and> playlist_list_open_stream ?env example_plugins ?enabled (Some ''http://x/a.m3u'') 0
     = (Some ''m3u'', [SuffixProbe 0, SuffixProbe 1], 2)"
    by (simp add: NUL_def)
  from a h8 b show ?thesis by simp
qed

subsection \<open>Initialisation and shutdown\<close>

lemma global_finish_loop_calls:
  "fst (global_finish_loop env enabled i ps w)
     = map FinishCall (filter (\<lambda>j. enabled ! j) [i ..< i + length ps])"
proof (induction ps arbitrary: i w)
  case Nil
  then show ?case by simp
next
  case (Cons plugin rest)
  have "i < Suc (i + length rest)" by simp
  from upt_conv_Cons [OF this]
  have u: "[i ..< Suc (i + length rest)] = i # [Suc i ..< Suc (i + length rest)]" .
  have ih: "fst (global_finish_loop env enabled (Suc i) rest w1)
      = map FinishCall (filter (\<lambda>j. enabled ! j) [Suc i ..< Suc (i + length rest)])" for w1
    using Cons.IH [of "Suc i" w1] by simp
  show ?case
  proof (cases "enabled ! i")
    case True
    with ih [of "playlist_plugin_finish env plugin w"] show ?thesis
      by (cases "global_finish_loop env enabled (Suc i) rest (playlist_plugin_finish env plugin w)")
         (simp del: upt_Suc add: u)
  next
    case False
    with ih [of w] show ?thesis
      by (simp del: upt_Suc add: u)
  qed
qed

lemma global_init_loop_before:
  "global_init_loop env config i ps enabled w = Inr (enabled', calls, w') \<Longrightarrow>
   length enabled' = length enabled \<and> (\<forall>j < i. enabled' ! j = enabled ! j)"
proof (induction ps arbitrary: i enabled w calls)
  case Nil
  then show ?case by simp
next
  case (Cons plugin rest)
  show ?case
  proof (cases "init_param config (name plugin)")
    case (Inl e)
    with Cons.prems show ?thesis by simp
  next
    case (Inr p)
    show ?thesis
    proof (cases p)
      case None
      with Inr Cons.prems have "global_init_loop env config (Suc i) rest enabled w
          = Inr (enabled', calls, w')" by simp
      from Cons.IH [OF this] show ?thesis by simp
    next
      case (Some param)
      with Inr Cons.prems obtain b w1 calls1
        where "global_init_loop env config (Suc i) rest (enabled[i := b]) w1
                 = Inr (enabled', calls1, w')"
        by (auto split: prod.splits sum.splits)
      from Cons.IH [OF this] show ?thesis by simp
    qed
  qed
qed

lemma global_init_loop_calls:
  "global_init_loop env config i ps enabled w = Inr (enabled', calls, w') \<Longrightarrow>
   i + length ps \<le> length enabled \<Longrightarrow> c \<in> set calls \<Longrightarrow>
   \<exists>j b. c = InitCall j b \<and> i \<le> j \<and> j < i + length ps \<and> enabled' ! j = b"
proof (induction ps arbitrary: i enabled w calls)
  case Nil
  then show ?case by simp
next
  case (Cons plugin rest)
  show ?case
  proof (cases "init_param config (name plugin)")
    case (Inl e)
    with Cons.prems show ?thesis by simp
  next
    case (Inr p)
    show ?thesis
    proof (cases p)
      case None
      with Inr Cons.prems have "global_init_loop env config (Suc i) rest enabled w
          = Inr (enabled', calls, w')" by simp
      from Cons.IH [OF this _ Cons.prems(3)] Cons.prems(2) show ?thesis
        by fastforce
    next
      case (Some param)
      with Inr Cons.prems(1) obtain b w1 calls1
        where r: "global_init_loop env config (Suc i) rest (enabled[i := b]) w1
                 = Inr (enabled', calls1, w')"
          and c: "calls = InitCall i b # calls1"
        by (auto split: prod.splits sum.splits)
      from Cons.prems(3) c consider "c = InitCall i b" | "c \<in> set calls1" by auto
      then show ?thesis
      proof cases
        case 1
        from global_init_loop_before [OF r] Cons.prems(2) have "enabled' ! i = b" by simp
        with 1 show ?thesis by simp
      next
        case 2
        from Cons.IH [OF r _ 2] Cons.prems(2) show ?thesis by fastforce
      qed
    qed
  qed
qed

lemma global_init_loop_untouched:
  "global_init_loop env config i ps enabled w = Inr (enabled', calls, w') \<Longrightarrow>
   i + length ps \<le> length enabled \<Longrightarrow> \<forall>b. InitCall j b \<notin> set calls \<Longrightarrow>
   enabled' ! j = enabled ! j"
proof (induction ps arbitrary: i enabled w calls)
  case Nil
  then show ?case by simp
next
  case (Cons plugin rest)
  show ?case
  proof (cases "init_param config (name plugin)")
    case (Inl e)
    with Cons.prems show ?thesis by simp
  next
    case (Inr p)
    show ?thesis
    proof (cases p)
      case None
      with Inr Cons.prems have "global_init_loop env config (Suc i) rest enabled w
          = Inr (enabled', calls, w')" by simp
      from Cons.IH [OF this _ Cons.prems(3)] Cons.prems(2) show ?thesis by simp
    next
      case (Some param)
      with Inr Cons.prems(1) obtain b w1 calls1
        where r: "global_init_loop env config (Suc i) rest (enabled[i := b]) w1
                 = Inr (enabled', calls1, w')"
          and c: "calls = InitCall i b # calls1"
        by (auto split: prod.splits sum.splits)
      from c Cons.prems(3) have ji: "j \<noteq> i" and n: "\<forall>b. InitCall j b \<notin> set calls1" by auto
      from Cons.IH [OF r _ n] Cons.prems(2) ji show ?thesis by simp
    qed
  qed
qed

lemma global_init_loop_skipped:
  "global_init_loop env config i ps enabled w = Inr (enabled', calls, w') \<Longrightarrow>
   i + length ps \<le> length enabled \<Longrightarrow> k < length ps \<Longrightarrow>
   init_param config (name (ps ! k)) = Inr None \<Longrightarrow> InitCall (i + k) b \<notin> set calls"
proof (induction ps arbitrary: i k enabled w calls)
  case Nil
  then show ?case by simp
next
  case (Cons plugin rest)
  show ?case
  proof (cases k)
    case 0
    with Cons.prems(4) have skip: "init_param config (name plugin) = Inr None" by simp
    with Cons.prems(1) have r: "global_init_loop env config (Suc i) rest enabled w
          = Inr (enabled', calls, w')" by simp
    show ?thesis
    proof
      assume "InitCall (i + k) b \<in> set calls"
      from global_init_loop_calls [OF r _ this] Cons.prems(2) 0 show False by auto
    qed
  next
    case (Suc k')
    with Cons.prems(3,4) have k': "k' < length rest"
      and skip: "init_param config (name (rest ! k')) = Inr None" by simp_all
    show ?thesis
    proof (cases "init_param config (name plugin)")
      case (Inl e)
      with Cons.prems show ?thesis by simp
    next
      case (Inr p)
      show ?thesis
      proof (cases p)
        case None
        with Inr Cons.prems have r: "global_init_loop env config (Suc i) rest enabled w
          = Inr (enabled', calls, w')" by simp
        from Cons.IH [OF r _ k' skip] Cons.prems(2) Suc show ?thesis by simp
      next
        case (Some param)
        with Inr Cons.prems(1) obtain b' w1 calls1
          where r: "global_init_loop env config (Suc i) rest (enabled[i := b']) w1
                 = Inr (enabled', calls1, w')"
            and c: "calls = InitCall i b' # calls1"
          by (auto split: prod.splits sum.splits)
        from Cons.IH [OF r _ k' skip] Cons.prems(2) Suc c show ?thesis by simp
      qed
    qed
  qed
qed

lemma global_finish_loop_world:
  "\<forall>k < length ps. ps ! k = plugins ! (i + k) \<Longrightarrow>
   snd (global_finish_loop env enabled i ps w)
     = fold (\<lambda>j. playlist_plugin_finish env (plugins ! j))
         (filter (\<lambda>j. enabled ! j) [i ..< i + length ps]) w"
proof (induction ps arbitrary: i w)
  case Nil
  then show ?case by simp
next
  case (Cons plugin rest)
  have "i < Suc (i + length rest)" by simp
  from upt_conv_Cons [OF this]
  have u: "[i ..< Suc (i + length rest)] = i # [Suc i ..< Suc (i + length rest)]" .
  from Cons.prems have p: "plugin = plugins ! i" by fastforce
  have r: "\<forall>k < length rest. rest ! k = plugins ! (Suc i + k)"
  proof (intro allI impI)
    fix k assume "k < length rest"
    with Cons.prems [rule_format, of "Suc k"] show "rest ! k = plugins ! (Suc i + k)" by simp
  qed
  have ih: "snd (global_finish_loop env enabled (Suc i) rest w1)
      = fold (\<lambda>j. playlist_plugin_finish env (plugins ! j))
          (filter (\<lambda>j. enabled ! j) [Suc i ..< Suc (i + length rest)]) w1" for w1
    using Cons.IH [OF r, of w1] by simp
  show ?case
  proof (cases "enabled ! i")
    case True
    with ih [of "playlist_plugin_finish env plugin w"] p show ?thesis
      by (cases "global_finish_loop env enabled (Suc i) rest (playlist_plugin_finish env plugin w)")
         (simp del: upt_Suc add: u)
  next
    case False
    with ih [of w] show ?thesis
      by (simp del: upt_Suc add: u)
  qed
qed

lemma global_init_loop_call_result:
  "global_init_loop env config i ps enabled w = Inr (enabled', calls, w') \<Longrightarrow>
   InitCall j b \<in> set calls \<Longrightarrow>
   \<exists>param w1. i \<le> j \<and> j < i + length ps
     \<and> init_param config (name (ps ! (j - i))) = Inr (Some param)
     \<and> fst (playlist_plugin_init env (ps ! (j - i)) param w1) = b"
proof (induction ps arbitrary: i enabled w calls)
  case Nil
  then show ?case by simp
next
  case (Cons plugin rest)
  have step: "\<exists>param w1. i \<le> j \<and> j < i + length (plugin # rest)
     \<and> init_param config (name ((plugin # rest) ! (j - i))) = Inr (Some param)
     \<and> fst (playlist_plugin_init env ((plugin # rest) ! (j - i)) param w1) = b"
    if "\<exists>param w1. Suc i \<le> j \<and> j < Suc i + length rest
     \<and> init_param config (name (rest ! (j - Suc i))) = Inr (Some param)
     \<and> fst (playlist_plugin_init env (rest ! (j - Suc i)) param w1) = b"
  proof -
    from that obtain param w1 where a: "Suc i \<le> j" "j < Suc i + length rest"
      "init_param config (name (rest ! (j - Suc i))) = Inr (Some param)"
      "fst (playlist_plugin_init env (rest ! (j - Suc i)) param w1) = b" by blast
    from a(1) have "(plugin # rest) ! (j - i) = rest ! (j - Suc i)"
      by (simp add: nth_Cons')
    with a show ?thesis by auto
  qed
  show ?case
  proof (cases "init_param config (name plugin)")
    case (Inl e)
    with Cons.prems show ?thesis by simp
  next
    case (Inr p)
    show ?thesis
    proof (cases p)
      case None
      with Inr Cons.prems have "global_init_loop env config (Suc i) rest enabled w
          = Inr (enabled', calls, w')" by simp
      from step [OF Cons.IH [OF this Cons.prems(2)]] show ?thesis .
    next
      case (Some param)
      with Inr Cons.prems(1) obtain b' w1 calls1
        where r: "global_init_loop env config (Suc i) rest (enabled[i := b']) w1
                 = Inr (enabled', calls1, w')"
          and c: "calls = InitCall i b' # calls1"
          and f: "playlist_plugin_init env plugin param w = (b', w1)"
        by (auto split: prod.splits sum.splits)
      from Cons.prems(2) c consider "j = i \<and> b = b'" | "InitCall j b \<in> set calls1" by auto
      then show ?thesis
      proof cases
        case 1
        from f have "fst (playlist_plugin_init env plugin param w) = b'" by simp
        with 1 Inr Some show ?thesis
          by (intro exI [of _ param] exI [of _ w]) simp
      next
        case 2
        from step [OF Cons.IH [OF r 2]] show ?thesis .
      qed
    qed
  qed
qed

text \<open>
  Claim C9.  After \<open>playlist_list_global_init\<close> has run over flags that are all false,
  \<open>playlist_list_global_finish\<close> calls \<open>playlist_plugin_finish\<close> once for each slot whose
  flag is set, in the order of the registry, and for no other slot: the world it leaves is
  the world after exactly these calls, one after the other.  A flag is set exactly when
  the initialisation of the plugin was called and returned true, and what is recorded as
  returned is what \<open>playlist_plugin_init\<close> returned for the block of the plugin; a plugin
  whose initialisation returned false is not finished; and a plugin whose configuration
  block says it is not enabled is neither initialised nor enabled nor finished.
\<close>

theorem global_init_finish_paired:
  assumes "playlist_list_global_init env config plugins (replicate (Suc (length plugins)) False) w
             = Inr (enabled, calls, w')"
  shows "fst (playlist_list_global_finish env plugins enabled w'')
           = map FinishCall (filter (\<lambda>i. enabled ! i) [0 ..< length plugins])
    \<and> (\<forall>i < length plugins. enabled ! i = (InitCall i True \<in> set calls))
    \<and> (\<forall>i < length plugins. InitCall i False \<in> set calls \<longrightarrow>
          FinishCall i \<notin> set (fst (playlist_list_global_finish env plugins enabled w'')))
    \<and> (\<forall>i < length plugins. \<forall>param.
          playlist_plugin_config config (name (plugins ! i)) = Inr (Some param)
          \<longrightarrow> \<not> GetBlockValue_enabled param True
          \<longrightarrow> (\<forall>b. InitCall i b \<notin> set calls) \<and> \<not> enabled ! i
              \<and> FinishCall i \<notin> set (fst (playlist_list_global_finish env plugins enabled w'')))
    \<and> snd (playlist_list_global_finish env plugins enabled w'')
        = fold (\<lambda>i. playlist_plugin_finish env (plugins ! i))
            (filter (\<lambda>i. enabled ! i) [0 ..< length plugins]) w''
    \<and> (\<forall>i < length plugins. \<forall>b. InitCall i b \<in> set calls \<longrightarrow>
          (\<exists>param w1. init_param config (name (plugins ! i)) = Inr (Some param)
             \<and> fst (playlist_plugin_init env (plugins ! i) param w1) = b))"
proof -
  let ?init = "replicate (Suc (length plugins)) False"
  from assms have loop: "global_init_loop env config 0 plugins ?init w = Inr (enabled, calls, w')"
    by (simp add: playlist_list_global_init_def)
  have len: "0 + length plugins \<le> length ?init" by simp
  have fin: "fst (playlist_list_global_finish env plugins enabled w'')
           = map FinishCall (filter (\<lambda>i. enabled ! i) [0 ..< length plugins])"
    using global_finish_loop_calls [of env enabled 0 plugins w'']
    by (simp add: playlist_list_global_finish_def)
  have mem: "FinishCall i \<in> set (fst (playlist_list_global_finish env plugins enabled w''))
               \<Longrightarrow> enabled ! i" for i
    unfolding fin by auto
  have called: "InitCall i b \<in> set calls \<Longrightarrow> enabled ! i = b" for i b
    using global_init_loop_calls [OF loop len, of "InitCall i b"] by auto
  have uncalled: "i < length plugins \<Longrightarrow> \<forall>b. InitCall i b \<notin> set calls \<Longrightarrow> \<not> enabled ! i" for i
    using global_init_loop_untouched [OF loop len, of i] by (simp del: replicate.simps)
  have en: "enabled ! i = (InitCall i True \<in> set calls)" if "i < length plugins" for i
  proof
    assume e: "enabled ! i"
    with uncalled [OF that] obtain b where "InitCall i b \<in> set calls" by blast
    with called [OF this] e show "InitCall i True \<in> set calls" by simp
  next
    assume "InitCall i True \<in> set calls"
    from called [OF this] show "enabled ! i" by simp
  qed
  have failed: "FinishCall i \<notin> set (fst (playlist_list_global_finish env plugins enabled w''))"
    if "InitCall i False \<in> set calls" for i
    using called [OF that] mem [of i] by auto
  have skipped: "(\<forall>b. InitCall i b \<notin> set calls) \<and> \<not> enabled ! i
      \<and> FinishCall i \<notin> set (fst (playlist_list_global_finish env plugins enabled w''))"
    if i: "i < length plugins"
      and c: "playlist_plugin_config config (name (plugins ! i)) = Inr (Some param)"
      and d: "\<not> GetBlockValue_enabled param True" for i param
  proof -
    from c d have "init_param config (name (plugins ! i)) = Inr None"
      by (simp add: init_param_def)
    from global_init_loop_skipped [OF loop len i this]
    have n: "\<forall>b. InitCall i b \<notin> set calls" by simp
    with uncalled [OF i] mem [of i] show ?thesis by blast
  qed
  have world: "snd (playlist_list_global_finish env plugins enabled w'')
        = fold (\<lambda>i. playlist_plugin_finish env (plugins ! i))
            (filter (\<lambda>i. enabled ! i) [0 ..< length plugins]) w''"
    using global_finish_loop_world [of plugins plugins 0 env enabled w'']
    by (simp add: playlist_list_global_finish_def)
  have result: "\<exists>param w1. init_param config (name (plugins ! i)) = Inr (Some param)
             \<and> fst (playlist_plugin_init env (plugins ! i) param w1) = b"
    if "InitCall i b \<in> set calls" for i b
    using global_init_loop_call_result [OF loop that] by auto
  from fin en failed skipped have
    "fst (playlist_list_global_finish env plugins enabled w'')
           = map FinishCall (filter (\<lambda>i. enabled ! i) [0 ..< length plugins])
    \<and> (\<forall>i < length plugins. enabled ! i = (InitCall i True \<in> set calls))
    \<and> (\<forall>i < length plugins. InitCall i False \<in> set calls \<longrightarrow>
          FinishCall i \<notin> set (fst (playlist_list_global_finish env plugins enabled w'')))
    \<and> (\<forall>i < length plugins. \<forall>param.
          playlist_plugin_config config (name (plugins ! i)) = Inr (Some param)
          \<longrightarrow> \<not> GetBlockValue_enabled param True
          \<longrightarrow> (\<forall>b. InitCall i b \<notin> set calls) \<and> \<not> enabled ! i
              \<and> FinishCall i \<notin> set (fst (playlist_list_global_finish env plugins enabled w'')))"
    by blast
  moreover note world
  moreover have "\<forall>i < length plugins. \<forall>b. InitCall i b \<in> set calls \<longrightarrow>
          (\<exists>param w1. init_param config (name (plugins ! i)) = Inr (Some param)
             \<and> fst (playlist_plugin_init env (plugins ! i) param w1) = b)"
    using result by blast
  ultimately show ?thesis by blast
qed

text \<open>
  With the block of \<open>m3u\<close> saying \<open>enabled "no"\<close> and the initialisation of \<open>soundcloud\<close>
  returning false, only \<open>extm3u\<close> and \<open>xspf\<close> are initialised with success, and exactly they
  are finished, in this order: from the world 5, \<open>extm3u\<close> leaves 11 and \<open>xspf\<close> then 33.
\<close>

theorem global_init_finish_paired_witness:
  "playlist_list_global_init (example_environment None) example_config example_plugins
      (replicate (Suc (length example_plugins)) False) 0
     = Inr ([True, False, True, False, False],
            [InitCall 0 True, InitCall 2 True, InitCall 3 False], 0)
   \<and> playlist_list_global_finish (example_environment None) example_plugins
        [True, False, True, False, False] 5
     = ([FinishCall 0, FinishCall 2], 33)"
proof -
  let ?enabled = "[True, False, True, False, False]"
  have h: "playlist_list_global_init (example_environment None) example_config example_plugins
      (replicate (Suc (length example_plugins)) False) 0
     = Inr (?enabled, [InitCall 0 True, InitCall 2 True, InitCall 3 False], 0)"
    by (simp add: example_defs playlist_list_global_init_def init_param_def strcmp_def
        GetBlockValue_enabled_def)
  note paired = global_init_finish_paired [OF h, of 5]
  have "fst (playlist_list_global_finish (example_environment None) example_plugins ?enabled 5)
     = map FinishCall (filter (\<lambda>i. ?enabled ! i) [0 ..< length example_plugins])"
    using paired by (rule conjunct1)
  also have "\<dots> = [FinishCall 0, FinishCall 2]"
    by (simp add: example_defs)
  finally have calls: "fst (playlist_list_global_finish (example_environment None) example_plugins
      ?enabled 5) = [FinishCall 0, FinishCall 2]" .
  have "snd (playlist_list_global_finish (example_environment None) example_plugins ?enabled 5)
     = fold (\<lambda>i. playlist_plugin_finish (example_environment None) (example_plugins ! i))
         (filter (\<lambda>i. ?enabled ! i) [0 ..< length example_plugins]) 5"
    using paired by blast
  also have "\<dots> = 33"
    by (simp add: example_defs)
  finally have world: "snd (playlist_list_global_finish (example_environment None) example_plugins
      ?enabled 5) = 33" .
  from calls world
  have "playlist_list_global_finish (example_environment None) example_plugins ?enabled 5
          = ([FinishCall 0, FinishCall 2], 33)"
    by (simp add: prod_eq_iff)
  with h show ?thesis by simp
qed

end
